theory Spec2Isabelle
  imports Complex_Main "HOL-Library.Word" "HOL-Library.Signed_Division"
begin

unbundle bit_operations_syntax

section \<open>Data model\<close>

text \<open>
  The driver of \<^verbatim>\<open>MPU9250.cpp\<close> talks to the chip through register reads and writes
  and keeps its calibration in the fields of the \<^verbatim>\<open>MPU9250\<close> object.

  \<^item> \<^verbatim>\<open>uint8_t\<close> is \<open>8 word\<close>, \<^verbatim>\<open>int16_t\<close> is \<open>16 word\<close> read with \<open>sint\<close>.
  \<^item> \<^verbatim>\<open>int\<close> and \<^verbatim>\<open>int32_t\<close> arithmetic is done on \<open>int\<close>: \<^verbatim>\<open>int\<close> is taken to be at
    least 32 bits wide (as on the ARM boards of the examples), and the operands, which
    come from 16-bit values and from sums of 200 of them, stay far inside that range.
    Division is C's, truncating towards zero (\<open>sdiv\<close>).
  \<^item> \<^verbatim>\<open>float\<close> and \<^verbatim>\<open>double\<close> values are real numbers: rounding is not modelled. A
    division whose divisor may be zero yields a \<open>cfloat\<close>, which is either a finite
    value or the infinity or NaN that IEEE division by zero produces.
  \<^item> A C array of three axes is a triple.
\<close>

type_synonym u8 = "8 word"
type_synonym i16 = "16 word"
type_synonym 'a vec3 = "'a \<times> 'a \<times> 'a"

datatype cfloat = Finite real | NonFinite

text \<open>
  The register names are declared in the headers, which are not among the sources; only
  the names matter here. \<open>reg\<close> lists the registers of the MPU the source names,
  \<open>akreg\<close> those of the AK8963 magnetometer.
\<close>

datatype reg =
    XG_OFFSET_H | XG_OFFSET_L | YG_OFFSET_H | YG_OFFSET_L | ZG_OFFSET_H | ZG_OFFSET_L
  | XA_OFFSET_H | YA_OFFSET_H | ZA_OFFSET_H
  | SMPLRT_DIV | CONFIG | GYRO_CONFIG | ACCEL_CONFIG | ACCEL_CONFIG2
  | LP_ACCEL_ODR | MOT_THR | MOT_DETECT_CTRL
  | INT_PIN_CFG | INT_ENABLE | INT_STATUS
  | ACCEL_XOUT_H | GYRO_XOUT_H
  | USER_CTRL | PWR_MGMT_1 | WHO_AM_I
  | SELF_TEST_X_ACCEL | SELF_TEST_Y_ACCEL | SELF_TEST_Z_ACCEL
  | SELF_TEST_X_GYRO | SELF_TEST_Y_GYRO | SELF_TEST_Z_GYRO

datatype akreg = AK8963_WHO_AM_I | AK8963_CNTL | AK8963_XOUT_L | AK8963_ASAX

datatype Error_t = ERROR_NONE | ERROR_IMU_ID | ERROR_MAG_ID | ERROR_SELFTEST

text \<open>
  The enumerations of the header. The source's comments give the register codes of the
  magnetometer settings: resolution 14 bit is 0 and 16 bit is 1, and the mode bits are
  0010 for 8 Hz and 0110 for 100 Hz; the full-scale selectors range over 0 to 3.
\<close>

datatype Mscale_t = MFS_14BITS | MFS_16BITS
datatype Mmode_t = M_8Hz | M_100Hz
datatype Ascale_t = AFS_2G | AFS_4G | AFS_8G | AFS_16G
datatype Gscale_t = GFS_250DPS | GFS_500DPS | GFS_1000DPS | GFS_2000DPS

fun Mscale_code :: "Mscale_t \<Rightarrow> u8" where
  "Mscale_code MFS_14BITS = 0"
| "Mscale_code MFS_16BITS = 1"

fun Mmode_code :: "Mmode_t \<Rightarrow> u8" where
  "Mmode_code M_8Hz = 0x02"
| "Mmode_code M_100Hz = 0x06"

fun Ascale_code :: "Ascale_t \<Rightarrow> u8" where
  "Ascale_code AFS_2G = 0"
| "Ascale_code AFS_4G = 1"
| "Ascale_code AFS_8G = 2"
| "Ascale_code AFS_16G = 3"

fun Gscale_code :: "Gscale_t \<Rightarrow> u8" where
  "Gscale_code GFS_250DPS = 0"
| "Gscale_code GFS_500DPS = 1"
| "Gscale_code GFS_1000DPS = 2"
| "Gscale_code GFS_2000DPS = 3"

subsection \<open>The register transport\<close>

text \<open>
  Modelled from the spec: the bus primitives (\<^verbatim>\<open>writeMPURegister\<close>,
  \<^verbatim>\<open>readMPURegisters\<close>, \<^verbatim>\<open>readAK8963Registers\<close>, \<^verbatim>\<open>writeAK8963Register\<close>,
  \<^verbatim>\<open>delay\<close>) are implemented outside \<^verbatim>\<open>MPU9250.cpp\<close>; the specification describes
  them as synchronous register reads and writes and a blocking delay. They are input and
  output here: every operation is appended to a trace, and the bytes a read returns are
  whatever the device answers, given by \<open>rx n j\<close>, byte \<open>j\<close> of the answer to read
  number \<open>n\<close>. Nothing is assumed about how the answers depend on earlier writes.
\<close>

datatype bus_op =
    WriteMPU reg u8
  | ReadMPU reg nat
  | WriteAK akreg u8
  | ReadAK akreg nat
  | Delay nat

record bus =
  rx :: "nat \<Rightarrow> nat \<Rightarrow> u8"
  reads :: nat
  trace :: "bus_op list"

definition emit :: "bus_op \<Rightarrow> bus \<Rightarrow> bus" where
  "emit op b = b\<lparr>trace := trace b @ [op]\<rparr>"

definition answer :: "nat \<Rightarrow> bus \<Rightarrow> u8 list \<times> bus" where
  "answer count b = (map (rx b (reads b)) [0..<count], b\<lparr>reads := Suc (reads b)\<rparr>)"

definition writeMPURegister :: "reg \<Rightarrow> u8 \<Rightarrow> bus \<Rightarrow> bus" where
  "writeMPURegister r v b = emit (WriteMPU r v) b"

definition readMPURegisters :: "reg \<Rightarrow> nat \<Rightarrow> bus \<Rightarrow> u8 list \<times> bus" where
  "readMPURegisters r count b = answer count (emit (ReadMPU r count) b)"

definition readMPURegister :: "reg \<Rightarrow> bus \<Rightarrow> u8 \<times> bus" where
  "readMPURegister r b = (let (bytes, b') = readMPURegisters r 1 b in (bytes ! 0, b'))"

definition writeAK8963Register :: "akreg \<Rightarrow> u8 \<Rightarrow> bus \<Rightarrow> bus" where
  "writeAK8963Register r v b = emit (WriteAK r v) b"

definition readAK8963Registers :: "akreg \<Rightarrow> nat \<Rightarrow> bus \<Rightarrow> u8 list \<times> bus" where
  "readAK8963Registers r count b = answer count (emit (ReadAK r count) b)"

definition delay :: "nat \<Rightarrow> bus \<Rightarrow> bus" where
  "delay ms b = emit (Delay ms) b"

text \<open>
  The register file of a device that stores every byte written to it: the contents after a
  trace, starting from the contents \<open>rf\<close>. Reads and delays leave it alone.
\<close>

fun regs_after :: "bus_op list \<Rightarrow> (reg \<Rightarrow> u8) \<Rightarrow> (reg \<Rightarrow> u8)" where
  "regs_after [] rf = rf"
| "regs_after (WriteMPU r v # ops) rf = regs_after ops (rf(r := v))"
| "regs_after (op # ops) rf = regs_after ops rf"

fun is_write :: "bus_op \<Rightarrow> bool" where
  "is_write (WriteMPU r v) = True"
| "is_write (WriteAK r v) = True"
| "is_write op = False"

subsection \<open>The driver object\<close>

record MPU9250 =
  aScale :: Ascale_t
  gScale :: Gscale_t
  mScale :: Mscale_t
  mMode :: Mmode_t
  mRes :: real
  sampleRateDivisor :: u8
  passthru :: bool
  magCalibration :: "real vec3"
  magBias :: "real vec3"
  magScale :: "cfloat vec3"

section \<open>Reading the magnetometer\<close>

text \<open>
  \<^verbatim>\<open>((int16_t)msb << 8) | lsb\<close>, stored in an \<^verbatim>\<open>int16_t\<close>: the two bytes side by side.
\<close>

definition int16_of :: "u8 \<Rightarrow> u8 \<Rightarrow> i16" where
  "int16_of msb lsb = push_bit 8 (ucast msb) OR ucast lsb"

text \<open>
  \<^verbatim>\<open>readMagData\<close>: seven bytes are read from \<^verbatim>\<open>AK8963_XOUT_L\<close>; the seventh is ST2.
  The destination is written only when bit \<open>0x08\<close> of ST2 is clear. The function returns
  nothing.
\<close>

definition readMagData :: "i16 vec3 \<Rightarrow> bus \<Rightarrow> i16 vec3 \<times> bus" where
  "readMagData destination b =
     (let (rawData, b') = readAK8963Registers AK8963_XOUT_L 7 b;
          c = rawData ! 6
      in if c AND 0x08 = 0
         then ((int16_of (rawData ! 1) (rawData ! 0),
                int16_of (rawData ! 3) (rawData ! 2),
                int16_of (rawData ! 5) (rawData ! 4)), b')
         else (destination, b'))"

text \<open>
  Float division where the divisor may be zero, and the product of a finite value with the
  result of such a division.
\<close>

definition fdiv :: "real \<Rightarrow> real \<Rightarrow> cfloat" where
  "fdiv a d = (if d = 0 then NonFinite else Finite (a / d))"

fun fmul :: "real \<Rightarrow> cfloat \<Rightarrow> cfloat" where
  "fmul a (Finite s) = Finite (a * s)"
| "fmul a NonFinite = NonFinite"

text \<open>
  \<^verbatim>\<open>getMres\<close> stores the resolution in \<^verbatim>\<open>_mRes\<close> and returns it. The enumeration has
  no third value, so the final \<^verbatim>\<open>return 0.f\<close> is not reached.
\<close>

fun getMres :: "Mscale_t \<Rightarrow> MPU9250 \<Rightarrow> real \<times> MPU9250" where
  "getMres MFS_14BITS this = (10 * 4912 / 8190, this\<lparr>mRes := 10 * 4912 / 8190\<rparr>)"
| "getMres MFS_16BITS this = (10 * 4912 / 32760, this\<lparr>mRes := 10 * 4912 / 32760\<rparr>)"

text \<open>
  \<^verbatim>\<open>readMagnetometer\<close>. The local array \<^verbatim>\<open>magCount\<close> is not initialised: \<open>magCount\<close>
  stands for what it happens to hold before \<^verbatim>\<open>readMagData\<close> is called.
\<close>

definition readMagnetometer :: "MPU9250 \<Rightarrow> i16 vec3 \<Rightarrow> bus \<Rightarrow> cfloat vec3 \<times> bus" where
  "readMagnetometer this magCount b =
     (let ((c0, c1, c2), b') = readMagData magCount b;
          (cal0, cal1, cal2) = magCalibration this;
          (bias0, bias1, bias2) = magBias this;
          (scale0, scale1, scale2) = magScale this;
          mx = real_of_int (sint c0) * mRes this * cal0 - bias0;
          my = real_of_int (sint c1) * mRes this * cal1 - bias1;
          mz = real_of_int (sint c2) * mRes this * cal2 - bias2
      in ((fmul mx scale0, fmul my scale1, fmul mz scale2), b'))"

section \<open>Magnetometer calibration\<close>

definition sample_count :: "Mmode_t \<Rightarrow> nat" where
  "sample_count m =
     (let n = 0;
          n = (if m = M_8Hz then 128 else n);
          n = (if m = M_100Hz then 1500 else n)
      in n)"

text \<open>The body of the inner loop for one axis: the running maximum and minimum.\<close>

definition track :: "i16 \<Rightarrow> i16 \<times> i16 \<Rightarrow> i16 \<times> i16" where
  "track t mm =
     (let (mx, mn) = mm;
          mx = (if sint t > sint mx then t else mx);
          mn = (if sint t < sint mn then t else mn)
      in (mx, mn))"

definition track3 :: "i16 vec3 \<Rightarrow> i16 vec3 \<times> i16 vec3 \<Rightarrow> i16 vec3 \<times> i16 vec3" where
  "track3 mag_temp mm =
     (let ((t0, t1, t2), (x0, x1, x2), (n0, n1, n2)) = (mag_temp, mm);
          (x0, n0) = track t0 (x0, n0);
          (x1, n1) = track t1 (x1, n1);
          (x2, n2) = track t2 (x2, n2)
      in ((x0, x1, x2), (n0, n1, n2)))"

text \<open>
  The sampling loop, with the number of iterations still to run: read, track, wait.
\<close>

fun mag_loop ::
  "nat \<Rightarrow> Mmode_t \<Rightarrow> i16 vec3 \<Rightarrow> i16 vec3 \<times> i16 vec3 \<Rightarrow> bus
     \<Rightarrow> (i16 vec3 \<times> i16 vec3 \<times> i16 vec3) \<times> bus" where
  "mag_loop 0 m mag_temp mm b = ((mag_temp, mm), b)"
| "mag_loop (Suc k) m mag_temp mm b =
     (let (mag_temp, b) = readMagData mag_temp b;
          mm = track3 mag_temp mm;
          b = (if m = M_8Hz then delay 135 b else b);
          b = (if m = M_100Hz then delay 12 b else b)
      in mag_loop k m mag_temp mm b)"

definition calibrateMagnetometer :: "MPU9250 \<Rightarrow> bus \<Rightarrow> MPU9250 \<times> bus" where
  "calibrateMagnetometer this b =
     (let mag_max = (- 32767, - 32767, - 32767);
          mag_min = (32767, 32767, 32767);
          mag_temp = (0, 0, 0);
          ((mag_temp, (x0, x1, x2), (n0, n1, n2)), b) =
             mag_loop (sample_count (mMode this)) (mMode this) mag_temp (mag_max, mag_min) b;
          mag_bias0 = (sint x0 + sint n0) sdiv 2;
          mag_bias1 = (sint x1 + sint n1) sdiv 2;
          mag_bias2 = (sint x2 + sint n2) sdiv 2;
          (cal0, cal1, cal2) = magCalibration this;
          bias = (real_of_int mag_bias0 * mRes this * cal0,
                  real_of_int mag_bias1 * mRes this * cal1,
                  real_of_int mag_bias2 * mRes this * cal2);
          mag_scale0 = (sint x0 - sint n0) sdiv 2;
          mag_scale1 = (sint x1 - sint n1) sdiv 2;
          mag_scale2 = (sint x2 - sint n2) sdiv 2;
          avg_rad = real_of_int (mag_scale0 + mag_scale1 + mag_scale2);
          avg_rad = avg_rad / 3;
          scale = (fdiv avg_rad (real_of_int mag_scale0),
                   fdiv avg_rad (real_of_int mag_scale1),
                   fdiv avg_rad (real_of_int mag_scale2))
      in (this\<lparr>magBias := bias, magScale := scale\<rparr>, b))"

section \<open>Self test\<close>

definition FS :: nat where
  "FS = 0"

text \<open>
  One pass of an averaging loop: six bytes from the accelerometer are added to the first
  triple, six bytes from the gyroscope to the second, high byte first.
\<close>

fun avg_loop :: "nat \<Rightarrow> int vec3 \<times> int vec3 \<Rightarrow> bus \<Rightarrow> (int vec3 \<times> int vec3) \<times> bus" where
  "avg_loop 0 acc b = (acc, b)"
| "avg_loop (Suc k) acc b =
     (let ((a0, a1, a2), (g0, g1, g2)) = acc;
          (rawData, b) = readMPURegisters ACCEL_XOUT_H 6 b;
          a0 = a0 + sint (int16_of (rawData ! 0) (rawData ! 1));
          a1 = a1 + sint (int16_of (rawData ! 2) (rawData ! 3));
          a2 = a2 + sint (int16_of (rawData ! 4) (rawData ! 5));
          (rawData, b) = readMPURegisters GYRO_XOUT_H 6 b;
          g0 = g0 + sint (int16_of (rawData ! 0) (rawData ! 1));
          g1 = g1 + sint (int16_of (rawData ! 2) (rawData ! 3));
          g2 = g2 + sint (int16_of (rawData ! 4) (rawData ! 5))
      in avg_loop k ((a0, a1, a2), (g0, g1, g2)) b)"

definition div200 :: "int vec3 \<Rightarrow> int vec3" where
  "div200 v = (let (v0, v1, v2) = v in (v0 sdiv 200, v1 sdiv 200, v2 sdiv 200))"

record measurement =
  aAvg :: "int vec3"
  gAvg :: "int vec3"
  aSTAvg :: "int vec3"
  gSTAvg :: "int vec3"
  selfTest_bytes :: "u8 list"

text \<open>The part of \<^verbatim>\<open>selfTest\<close> that talks to the device, up to the six trim bytes.\<close>

definition selfTest_measure :: "bus \<Rightarrow> measurement \<times> bus" where
  "selfTest_measure b =
     (let b = writeMPURegister SMPLRT_DIV 0x00 b;
          b = writeMPURegister CONFIG 0x02 b;
          b = writeMPURegister GYRO_CONFIG (push_bit FS 1) b;
          b = writeMPURegister ACCEL_CONFIG2 0x02 b;
          b = writeMPURegister ACCEL_CONFIG (push_bit FS 1) b;
          ((a, g), b) = avg_loop 200 ((0, 0, 0), (0, 0, 0)) b;
          a = div200 a;
          g = div200 g;
          b = writeMPURegister ACCEL_CONFIG 0xE0 b;
          b = writeMPURegister GYRO_CONFIG 0xE0 b;
          b = delay 25 b;
          ((aST, gST), b) = avg_loop 200 ((0, 0, 0), (0, 0, 0)) b;
          aST = div200 aST;
          gST = div200 gST;
          b = writeMPURegister ACCEL_CONFIG 0x00 b;
          b = writeMPURegister GYRO_CONFIG 0x00 b;
          b = delay 25 b;
          (s0, b) = readMPURegister SELF_TEST_X_ACCEL b;
          (s1, b) = readMPURegister SELF_TEST_Y_ACCEL b;
          (s2, b) = readMPURegister SELF_TEST_Z_ACCEL b;
          (s3, b) = readMPURegister SELF_TEST_X_GYRO b;
          (s4, b) = readMPURegister SELF_TEST_Y_GYRO b;
          (s5, b) = readMPURegister SELF_TEST_Z_GYRO b
      in (\<lparr>aAvg = a, gAvg = g, aSTAvg = aST, gSTAvg = gST,
           selfTest_bytes = [s0, s1, s2, s3, s4, s5]\<rparr>, b))"

text \<open>
  \<^verbatim>\<open>(float)(2620/1<<FS)*(pow(1.01, ((float)selfTest[i] - 1.0)))\<close>: in C the quotient
  \<^verbatim>\<open>2620/1\<close> is shifted left by \<^verbatim>\<open>FS\<close>.
\<close>

definition factoryTrim_of :: "u8 \<Rightarrow> real" where
  "factoryTrim_of s =
     real_of_int (push_bit FS (2620 sdiv 1)) * (1.01 powr (real (unat s) - 1.0))"

definition factoryTrim :: "u8 list \<Rightarrow> real list" where
  "factoryTrim st =
     [factoryTrim_of (st ! 0), factoryTrim_of (st ! 1), factoryTrim_of (st ! 2),
      factoryTrim_of (st ! 3), factoryTrim_of (st ! 4), factoryTrim_of (st ! 5)]"

definition tolerance :: "int \<Rightarrow> int \<Rightarrow> real \<Rightarrow> real" where
  "tolerance stAvg avg ft = 100 * real_of_int (stAvg - avg) / ft - 100"

definition tolerances :: "measurement \<Rightarrow> real list \<Rightarrow> real list" where
  "tolerances m ft =
     (let (a0, a1, a2) = aAvg m; (g0, g1, g2) = gAvg m;
          (aST0, aST1, aST2) = aSTAvg m; (gST0, gST1, gST2) = gSTAvg m
      in [tolerance aST0 a0 (ft ! 0), tolerance aST1 a1 (ft ! 1), tolerance aST2 a2 (ft ! 2),
          tolerance gST0 g0 (ft ! 3), tolerance gST1 g1 (ft ! 4), tolerance gST2 g2 (ft ! 5)])"

text \<open>The final loop: the first tolerance at or above 14 ends the test with failure.\<close>

fun check :: "real list \<Rightarrow> bool" where
  "check [] = True"
| "check (t # ts) = (if t \<ge> 14 then False else check ts)"

definition selfTest_tolerances :: "bus \<Rightarrow> real list" where
  "selfTest_tolerances b =
     (let (m, b') = selfTest_measure b in tolerances m (factoryTrim (selfTest_bytes m)))"

definition selfTest :: "bus \<Rightarrow> bool \<times> bus" where
  "selfTest b =
     (let (m, b') = selfTest_measure b;
          ft = factoryTrim (selfTest_bytes m);
          tol = tolerances m ft
      in (check tol, b'))"

section \<open>Start-up\<close>

text \<open>
  \<^verbatim>\<open>I2C_MST_EN\<close> is a constant of the header; it is a parameter of the functions that
  write it.
\<close>

definition reset :: "u8 \<Rightarrow> MPU9250 \<Rightarrow> bus \<Rightarrow> bus" where
  "reset I2C_MST_EN this b =
     (let b = (if \<not> passthru this then writeMPURegister USER_CTRL 0 b else b);
          b = writeMPURegister PWR_MGMT_1 0x80 b;
          b = (if \<not> passthru this then writeMPURegister USER_CTRL I2C_MST_EN b else b)
      in delay 100 b)"

definition initMPU6500 :: "u8 \<Rightarrow> Ascale_t \<Rightarrow> Gscale_t \<Rightarrow> u8 \<Rightarrow> bool \<Rightarrow> bus \<Rightarrow> bus" where
  "initMPU6500 I2C_MST_EN ascale gscale srd pt b =
     (let b = writeMPURegister PWR_MGMT_1 0x80 b;
          b = delay 100 b;
          b = writeMPURegister PWR_MGMT_1 0x01 b;
          b = delay 200 b;
          b = (if pt then writeMPURegister CONFIG 0x03 b else b);
          b = writeMPURegister SMPLRT_DIV srd b;
          (c, b) = readMPURegister GYRO_CONFIG b;
          c = c AND NOT 0x02;
          c = c AND NOT 0x18;
          c = c OR push_bit 3 (Gscale_code gscale);
          b = writeMPURegister GYRO_CONFIG c b;
          (c, b) = readMPURegister ACCEL_CONFIG b;
          c = c AND NOT 0x18;
          c = c OR push_bit 3 (Ascale_code ascale);
          b = writeMPURegister ACCEL_CONFIG c b;
          (c, b) = readMPURegister ACCEL_CONFIG2 b;
          c = c AND NOT 0x0F;
          c = c OR 0x03;
          b = writeMPURegister ACCEL_CONFIG2 c b;
          b = (if pt then writeMPURegister INT_PIN_CFG 0x12 b
               else writeMPURegister USER_CTRL I2C_MST_EN b);
          b = writeMPURegister INT_ENABLE 0x01 b
      in delay 100 b)"

definition readAK8963Register :: "akreg \<Rightarrow> bus \<Rightarrow> u8 \<times> bus" where
  "readAK8963Register subAddress b =
     (let (buffer, b') = readAK8963Registers subAddress 1 b in (buffer ! 0, b'))"

definition getAK8963CID :: "bus \<Rightarrow> u8 \<times> bus" where
  "getAK8963CID b = readAK8963Register AK8963_WHO_AM_I b"

definition initAK8963 :: "Mscale_t \<Rightarrow> Mmode_t \<Rightarrow> MPU9250 \<Rightarrow> bus \<Rightarrow> MPU9250 \<times> bus" where
  "initAK8963 mscale Mmode this b =
     (let b = writeAK8963Register AK8963_CNTL 0x00 b;
          b = delay 10 b;
          b = writeAK8963Register AK8963_CNTL 0x0F b;
          b = delay 10 b;
          (rawData, b) = readAK8963Registers AK8963_ASAX 3 b;
          cal = (real_of_int (uint (rawData ! 0) - 128) / 256 + 1,
                 real_of_int (uint (rawData ! 1) - 128) / 256 + 1,
                 real_of_int (uint (rawData ! 2) - 128) / 256 + 1);
          this = this\<lparr>magCalibration := cal, mMode := Mmode\<rparr>;
          b = writeAK8963Register AK8963_CNTL 0x00 b;
          b = delay 10 b;
          b = writeAK8963Register AK8963_CNTL (push_bit 4 (Mscale_code mscale) OR Mmode_code Mmode) b
      in (this, delay 10 b))"

text \<open>
  Modelled from the spec: \<^verbatim>\<open>getId\<close> is a method of the base class, whose source is
  missing; the identity check "reads a fixed who-am-I register".
\<close>

definition getId :: "bus \<Rightarrow> u8 \<times> bus" where
  "getId b = readMPURegister WHO_AM_I b"

text \<open>
  \<^verbatim>\<open>runTests\<close>. The accelerometer and gyroscope calibration \<^verbatim>\<open>calibrate\<close> belongs to the
  base class as well; it is a parameter, any function on the bus.
\<close>

definition runTests ::
  "u8 \<Rightarrow> (bus \<Rightarrow> bus) \<Rightarrow> MPU9250 \<Rightarrow> bus \<Rightarrow> Error_t \<times> MPU9250 \<times> bus" where
  "runTests I2C_MST_EN calibrate this b =
     (let (id, b) = getId b
      in if id \<noteq> 0x71 then (ERROR_IMU_ID, this, b)
         else
           let b = reset I2C_MST_EN this b;
               (ok, b) = selfTest b
           in if \<not> ok then (ERROR_SELFTEST, this, b)
              else
                let b = calibrate b;
                    b = initMPU6500 I2C_MST_EN (aScale this) (gScale this)
                          (sampleRateDivisor this) (passthru this) b;
                    (cid, b) = getAK8963CID b
                in if cid \<noteq> 0x48 then (ERROR_MAG_ID, this, b)
                   else
                     let (this, b) = initAK8963 (mScale this) (mMode this) this b
                     in (ERROR_NONE, this, b))"

section \<open>Notions of the specification\<close>

text \<open>
  The signed 16-bit value stored little-endian in two bytes: the low byte \<open>lo\<close>, the
  high byte \<open>hi\<close>, two's complement.
\<close>

definition signed16_le :: "u8 \<Rightarrow> u8 \<Rightarrow> int" where
  "signed16_le lo hi =
     (let v = 256 * uint hi + uint lo in if v < 32768 then v else v - 65536)"

text \<open>
  The factory trim of the datasheet, as the specification writes it, for the full-scale
  code \<open>fs\<close> and a trim byte.
\<close>

definition datasheet_trim :: "nat \<Rightarrow> nat \<Rightarrow> real" where
  "datasheet_trim fs trimByte = (2620 / 2 ^ fs) * 1.01 powr (real trimByte - 1)"

text \<open>Component \<open>i\<close> of an axis triple: 0 is x, 1 is y, 2 is z.\<close>

fun axis :: "nat \<Rightarrow> 'a vec3 \<Rightarrow> 'a" where
  "axis i (x, y, z) = (if i = 0 then x else if i = 1 then y else z)"

text \<open>
  The magnetometer conversion as the specification words it: \<open>raw * resolution - bias\<close>,
  then multiplied by the soft-iron scale and the factory sensitivity.
\<close>

definition spec_physical :: "real \<Rightarrow> real \<Rightarrow> real \<Rightarrow> real \<Rightarrow> real \<Rightarrow> real" where
  "spec_physical raw resolution bias scale sensitivity =
     (raw * resolution - bias) * scale * sensitivity"

text \<open>
  The conversion with the sensitivity applied to the scaled count, before the bias is
  subtracted.
\<close>

definition mag_physical :: "real \<Rightarrow> real \<Rightarrow> real \<Rightarrow> real \<Rightarrow> real \<Rightarrow> real" where
  "mag_physical raw resolution sensitivity bias scale =
     (raw * resolution * sensitivity - bias) * scale"

text \<open>Example inputs: a driver object, and a bus at its start with given answers.\<close>

definition imu0 :: MPU9250 where
  "imu0 = \<lparr>aScale = AFS_2G, gScale = GFS_250DPS, mScale = MFS_16BITS, mMode = M_8Hz,
           mRes = 1, sampleRateDivisor = 4, passthru = False,
           magCalibration = (2, 2, 2), magBias = (1, 1, 1),
           magScale = (Finite 1, Finite 1, Finite 1)\<rparr>"

definition bus_of :: "(nat \<Rightarrow> nat \<Rightarrow> u8) \<Rightarrow> bus" where
  "bus_of r = \<lparr>rx = r, reads = 0, trace = []\<rparr>"

text \<open>
  The answers of the magnetometer during a calibration and the samples in them.
  \<open>answers b k\<close> are the answers to the next \<open>k\<close> reads on the bus \<open>b\<close>. An answer
  reports overflow when bit \<open>0x08\<close> of its seventh byte, ST2, is set. \<open>axis_count i a\<close> is
  the count of axis \<open>i\<close> in the answer \<open>a\<close>: the signed 16-bit value stored little-endian in
  the bytes \<open>2 * i\<close> and \<open>2 * i + 1\<close>. \<open>observed i this b\<close> are the raw counts of axis \<open>i\<close>
  that the device delivers during \<^verbatim>\<open>calibrateMagnetometer\<close>: the counts in those answers to
  the reads of the loop that do not report overflow.
\<close>

definition answers :: "bus \<Rightarrow> nat \<Rightarrow> (nat \<Rightarrow> u8) list" where
  "answers b k = map (\<lambda>j. rx b (reads b + j)) [0..<k]"

definition overflow :: "(nat \<Rightarrow> u8) \<Rightarrow> bool" where
  "overflow a \<longleftrightarrow> a 6 AND 0x08 \<noteq> 0"

definition axis_count :: "nat \<Rightarrow> (nat \<Rightarrow> u8) \<Rightarrow> int" where
  "axis_count i a = signed16_le (a (2 * i)) (a (2 * i + 1))"

definition observed :: "nat \<Rightarrow> MPU9250 \<Rightarrow> bus \<Rightarrow> int list" where
  "observed i this b =
     map (axis_count i) (filter (\<lambda>a. \<not> overflow a) (answers b (sample_count (mMode this))))"

text \<open>
  Half-swing and midpoint of a list of counts as the specification writes them, halves of
  the difference and of the sum of the maximum and the minimum, and the same with the
  division of C on integers, which truncates.
\<close>

definition spec_half_swing :: "int list \<Rightarrow> real" where
  "spec_half_swing cs = (real_of_int (Max (set cs)) - real_of_int (Min (set cs))) / 2"

definition spec_midpoint :: "int list \<Rightarrow> real" where
  "spec_midpoint cs = (real_of_int (Max (set cs)) + real_of_int (Min (set cs))) / 2"

definition half_swing :: "int list \<Rightarrow> int" where
  "half_swing cs = (Max (set cs) - Min (set cs)) sdiv 2"

definition midpoint :: "int list \<Rightarrow> int" where
  "midpoint cs = (Max (set cs) + Min (set cs)) sdiv 2"

text \<open>
  The soft-iron scale and the hard-iron bias of axis \<open>i\<close> as the specification words them,
  from the observed counts: the average of the three half-swings over the half-swing of
  the axis, and the midpoint times the resolution times the factory sensitivity.
\<close>

definition spec_soft_iron :: "nat \<Rightarrow> MPU9250 \<Rightarrow> bus \<Rightarrow> cfloat" where
  "spec_soft_iron i this b =
     fdiv ((spec_half_swing (observed 0 this b) + spec_half_swing (observed 1 this b)
            + spec_half_swing (observed 2 this b)) / 3)
          (spec_half_swing (observed i this b))"

definition spec_hard_iron :: "nat \<Rightarrow> MPU9250 \<Rightarrow> bus \<Rightarrow> real" where
  "spec_hard_iron i this b =
     spec_midpoint (observed i this b) * mRes this * axis i (magCalibration this)"

text \<open>
  Example answers of the magnetometer: \<open>xyz_bytes x y z\<close> are the seven bytes that carry
  the counts \<open>x\<close>, \<open>y\<close>, \<open>z\<close> with ST2 clear, \<open>overflow_bytes\<close> is an answer that reports
  overflow, and \<open>two_phase f g\<close> is a bus that answers the first read with \<open>f\<close> and every
  later read with \<open>g\<close>. Three runs: the first read reports overflow and every later read
  delivers 200, 300, 400; the first read delivers 1, 1, 1 and every later read 0, 0, 0;
  every read delivers -32768 on the x axis.
\<close>

definition xyz_bytes :: "int \<Rightarrow> int \<Rightarrow> int \<Rightarrow> nat \<Rightarrow> u8" where
  "xyz_bytes x y z j =
     (if j = 0 then word_of_int (x mod 256) else if j = 1 then word_of_int (x div 256 mod 256)
      else if j = 2 then word_of_int (y mod 256) else if j = 3 then word_of_int (y div 256 mod 256)
      else if j = 4 then word_of_int (z mod 256) else if j = 5 then word_of_int (z div 256 mod 256)
      else 0)"

definition overflow_bytes :: "nat \<Rightarrow> u8" where
  "overflow_bytes j = (if j = 6 then 0x08 else 0)"

definition two_phase :: "(nat \<Rightarrow> u8) \<Rightarrow> (nat \<Rightarrow> u8) \<Rightarrow> bus" where
  "two_phase f g = bus_of (\<lambda>n. if n = 0 then f else g)"

definition bus_overflow_first :: bus where
  "bus_overflow_first = two_phase overflow_bytes (xyz_bytes 200 300 400)"

definition bus_swing_one :: bus where
  "bus_swing_one = two_phase (xyz_bytes 1 1 1) (xyz_bytes 0 0 0)"

definition bus_all_least :: bus where
  "bus_all_least = two_phase (xyz_bytes (- 32768) 0 0) (xyz_bytes (- 32768) 0 0)"

text \<open>
  The bus operations of the self test: \<open>burst\<close> are the two reads of one pass of an
  averaging loop, \<open>selfTest_ops\<close> is everything one call of \<^verbatim>\<open>selfTest\<close> does on the
  bus, in order.
\<close>

definition burst :: "bus_op list" where
  "burst = [ReadMPU ACCEL_XOUT_H 6, ReadMPU GYRO_XOUT_H 6]"

definition selfTest_ops :: "bus_op list" where
  "selfTest_ops =
     [WriteMPU SMPLRT_DIV 0x00, WriteMPU CONFIG 0x02, WriteMPU GYRO_CONFIG 0x01,
      WriteMPU ACCEL_CONFIG2 0x02, WriteMPU ACCEL_CONFIG 0x01]
     @ concat (replicate 200 burst)
     @ [WriteMPU ACCEL_CONFIG 0xE0, WriteMPU GYRO_CONFIG 0xE0, Delay 25]
     @ concat (replicate 200 burst)
     @ [WriteMPU ACCEL_CONFIG 0x00, WriteMPU GYRO_CONFIG 0x00, Delay 25,
        ReadMPU SELF_TEST_X_ACCEL 1, ReadMPU SELF_TEST_Y_ACCEL 1, ReadMPU SELF_TEST_Z_ACCEL 1,
        ReadMPU SELF_TEST_X_GYRO 1, ReadMPU SELF_TEST_Y_GYRO 1, ReadMPU SELF_TEST_Z_GYRO 1]"

text \<open>
  The readings behind the self test. \<open>sample16 b n p\<close> is the signed 16-bit value at
  position \<open>p\<close> of the answer to read \<open>n\<close>, high byte first; \<open>mean200 b first p\<close> is the
  mean, truncated towards zero, of the 200 such values in the answers to the reads
  \<open>first\<close>, \<open>first + 2\<close>, \<open>first + 4\<close> and so on.
\<close>

definition sample16 :: "bus \<Rightarrow> nat \<Rightarrow> nat \<Rightarrow> int" where
  "sample16 b n p = sint (int16_of (rx b n (2 * p)) (rx b n (2 * p + 1)))"

definition mean200 :: "bus \<Rightarrow> nat \<Rightarrow> nat \<Rightarrow> int" where
  "mean200 b first p = (\<Sum>j<200. sample16 b (first + 2 * j) p) sdiv 200"

text \<open>
  The percent deviation as the specification writes it, and the six deviations of a self
  test started on the bus \<open>b\<close>: the accelerometer axes, then the gyroscope axes. The
  normal means come from the first 400 reads, the self-test means from the next 400, the
  trim bytes from the last six.
\<close>

definition deviation :: "int \<Rightarrow> int \<Rightarrow> real \<Rightarrow> real" where
  "deviation selfTestMean normalMean trim =
     100 * (real_of_int selfTestMean - real_of_int normalMean) / trim - 100"

definition spec_deviations :: "bus \<Rightarrow> real list" where
  "spec_deviations b =
     map (\<lambda>p. deviation (mean200 b (reads b + 400) p) (mean200 b (reads b) p)
                 (datasheet_trim 0 (unat (rx b (reads b + 800 + p) 0)))) [0, 1, 2]
     @ map (\<lambda>p. deviation (mean200 b (reads b + 401) p) (mean200 b (reads b + 1) p)
                   (datasheet_trim 0 (unat (rx b (reads b + 803 + p) 0)))) [0, 1, 2]"

text \<open>
  Example answers for the self test: the first 400 reads return 0, the next 400 return the
  value \<open>0x1000\<close> on every axis, and every trim byte is 1.
\<close>

definition excited :: "nat \<Rightarrow> nat \<Rightarrow> u8" where
  "excited n j =
     (if n < 400 then 0 else if n < 800 then (if even j then 0x10 else 0) else 1)"

text \<open>
  Stages of \<^verbatim>\<open>runTests\<close>: what \<^verbatim>\<open>reset\<close> does on the bus, the bus on which the self test
  runs, the bus when the self test has returned, and the bus on which the identity of the
  magnetometer is read.
\<close>

definition reset_ops :: "u8 \<Rightarrow> MPU9250 \<Rightarrow> bus_op list" where
  "reset_ops I2C_MST_EN this =
     (if passthru this then [WriteMPU PWR_MGMT_1 0x80, Delay 100]
      else [WriteMPU USER_CTRL 0, WriteMPU PWR_MGMT_1 0x80, WriteMPU USER_CTRL I2C_MST_EN,
            Delay 100])"

definition at_selfTest :: "u8 \<Rightarrow> MPU9250 \<Rightarrow> bus \<Rightarrow> bus" where
  "at_selfTest I2C_MST_EN this b = reset I2C_MST_EN this (snd (getId b))"

definition after_selfTest :: "u8 \<Rightarrow> MPU9250 \<Rightarrow> bus \<Rightarrow> bus" where
  "after_selfTest I2C_MST_EN this b = snd (selfTest (at_selfTest I2C_MST_EN this b))"

definition at_mag_check :: "u8 \<Rightarrow> (bus \<Rightarrow> bus) \<Rightarrow> MPU9250 \<Rightarrow> bus \<Rightarrow> bus" where
  "at_mag_check I2C_MST_EN calibrate this b =
     initMPU6500 I2C_MST_EN (aScale this) (gScale this) (sampleRateDivisor this)
       (passthru this) (calibrate (after_selfTest I2C_MST_EN this b))"

section \<open>The sample buffer of the calibration loop\<close>

text \<open>
  What the code keeps in \<^verbatim>\<open>mag_temp\<close>, for the proofs about the loop. \<open>mag_decode\<close> are the
  three counts \<^verbatim>\<open>readMagData\<close> stores from an answer. \<open>buffer_seq k t b\<close> is the content
  of the buffer after each of \<open>k\<close> successive calls of \<^verbatim>\<open>readMagData\<close>, starting from the
  content \<open>t\<close>, and \<open>examined i this b\<close> are the values of axis \<open>i\<close> that the loop of
  \<^verbatim>\<open>calibrateMagnetometer\<close> compares with its running maximum and minimum. A read that
  reports overflow leaves the buffer as it is, so these values are the observed counts
  and, when the first read reports overflow, the 0 the buffer starts with.
\<close>

definition mag_decode :: "(nat \<Rightarrow> u8) \<Rightarrow> i16 vec3" where
  "mag_decode raw =
     (int16_of (raw 1) (raw 0), int16_of (raw 3) (raw 2), int16_of (raw 5) (raw 4))"

fun buffer_seq :: "nat \<Rightarrow> i16 vec3 \<Rightarrow> bus \<Rightarrow> i16 vec3 list" where
  "buffer_seq 0 t b = []"
| "buffer_seq (Suc k) t b = (let (t', b') = readMagData t b in t' # buffer_seq k t' b')"

definition examined :: "nat \<Rightarrow> MPU9250 \<Rightarrow> bus \<Rightarrow> int list" where
  "examined i this b =
     map (\<lambda>t. sint (axis i t)) (buffer_seq (sample_count (mMode this)) (0, 0, 0) b)"

section \<open>Verification\<close>

subsection \<open>Bytes and 16-bit values\<close>

lemma int16_of_add: "int16_of msb lsb = push_bit 8 (ucast msb) + ucast lsb"
  unfolding int16_of_def
  by (rule disjunctive_add [symmetric]) (auto simp add: bit_simps dest: bit_imp_le_length)

lemma int16_of_uint: "uint (int16_of msb lsb) = uint msb * 256 + uint lsb"
proof -
  have m: "uint msb < 256" and l: "uint lsb < 256"
    using uint_bounded [of msb] uint_bounded [of lsb] by simp_all
  have "uint (int16_of msb lsb) = (uint msb * 256 + uint lsb) mod 2 ^ 16"
    by (simp add: int16_of_add push_bit_eq_mult uint_word_ariths uint_up_ucast is_up mod_simps)
  also have "\<dots> = uint msb * 256 + uint lsb"
    using m l by (simp add: mod_pos_pos_trivial)
  finally show ?thesis .
qed

lemma sint_i16: "sint (w :: i16) = (if uint w < 32768 then uint w else uint w - 65536)"
proof -
  have "sint w = signed_take_bit 15 (uint w)"
    by (simp add: sint_uint)
  also have "\<dots> = uint w - 65536 * of_bool (bit (uint w) 15)"
    using uint_bounded [of w] by (simp add: signed_take_bit_eq_take_bit_minus take_bit_eq_mod)
  also have "bit (uint w) 15 \<longleftrightarrow> \<not> uint w < 32768"
  proof (cases "uint w < 32768")
    case True
    then have "uint w div 32768 = 0" by simp
    then show ?thesis using True by (simp add: bit_iff_odd)
  next
    case False
    then have "uint w div 32768 = 1" using uint_bounded [of w] by simp
    then show ?thesis using False by (simp add: bit_iff_odd)
  qed
  finally show ?thesis by simp
qed

lemma sint_int16_of: "sint (int16_of msb lsb) = signed16_le lsb msb"
  by (simp add: sint_i16 int16_of_uint signed16_le_def Let_def)

subsection \<open>readMagData\<close>

lemma readMagData_eq:
  "readMagData destination b =
     ((if rx b (reads b) 6 AND 0x08 = 0
       then (int16_of (rx b (reads b) 1) (rx b (reads b) 0),
             int16_of (rx b (reads b) 3) (rx b (reads b) 2),
             int16_of (rx b (reads b) 5) (rx b (reads b) 4))
       else destination),
      b\<lparr>reads := Suc (reads b), trace := trace b @ [ReadAK AK8963_XOUT_L 7]\<rparr>)"
  by (simp add: readMagData_def readAK8963Registers_def answer_def emit_def Let_def
      upt_rec [of _ 7] eval_nat_numeral)

text \<open>
  C6. When bit \<open>0x08\<close> of the seventh byte read (ST2) is set, \<^verbatim>\<open>readMagData\<close> leaves the
  destination as it was; when the bit is clear, the destination receives the three signed
  16-bit values stored little-endian in the first six bytes. In both cases the only effect
  on the bus is the one read of seven bytes, and the function has no error result.
\<close>

theorem readMagData_drops_on_overflow:
  "(rx b (reads b) 6 AND 0x08 \<noteq> 0 \<longrightarrow> fst (readMagData destination b) = destination) \<and>
   (rx b (reads b) 6 AND 0x08 = 0 \<longrightarrow>
      (case fst (readMagData destination b) of (x, y, z) \<Rightarrow>
         sint x = signed16_le (rx b (reads b) 0) (rx b (reads b) 1) \<and>
         sint y = signed16_le (rx b (reads b) 2) (rx b (reads b) 3) \<and>
         sint z = signed16_le (rx b (reads b) 4) (rx b (reads b) 5))) \<and>
   snd (readMagData destination b) =
     b\<lparr>reads := Suc (reads b), trace := trace b @ [ReadAK AK8963_XOUT_L 7]\<rparr>"
  by (simp add: readMagData_eq sint_int16_of)

theorem readMagData_drops_on_overflow_witness:
  "fst (readMagData (1, 2, 3) \<lparr>rx = (\<lambda>n j. 0x08), reads = 0, trace = []\<rparr>) = (1, 2, 3) \<and>
   (case fst (readMagData (1, 2, 3)
        \<lparr>rx = (\<lambda>n j. if j = 6 then 0x10 else if j = 1 then 0xFF
                      else if j = 0 then 0x9C else 0x01),
         reads = 0, trace = []\<rparr>)
    of (x, y, z) \<Rightarrow> sint x = - 100 \<and> sint y = 257 \<and> sint z = 257)"
  using readMagData_drops_on_overflow
          [of "\<lparr>rx = (\<lambda>n j. 0x08), reads = 0, trace = []\<rparr>" "(1, 2, 3)"]
        readMagData_drops_on_overflow
          [of "\<lparr>rx = (\<lambda>n j. if j = 6 then 0x10 else if j = 1 then 0xFF
                             else if j = 0 then 0x9C else 0x01),
                reads = 0, trace = []\<rparr>" "(1, 2, 3)"]
  by (simp add: signed16_le_def)

subsection \<open>Factory trim\<close>

lemma factoryTrim_of_eq: "factoryTrim_of s = 2620 * 1.01 powr (real (unat s) - 1)"
  by (simp add: factoryTrim_of_def FS_def signed_divide_int_def)

lemma factoryTrim_of_pos: "0 < factoryTrim_of s"
  by (simp add: factoryTrim_of_eq)

lemma factoryTrim_nth: "k < 6 \<Longrightarrow> factoryTrim st ! k = factoryTrim_of (st ! k)"
  by (auto simp add: factoryTrim_def less_Suc_eq eval_nat_numeral)

lemma trim_101_bounds:
  fixes x :: real
  assumes "x = 2620 * 1.01 ^ 100"
  shows "\<bar>x - 7086.6\<bar> < 0.05" and "\<bar>x - 7121.9\<bar> > 35"
proof -
  have lo: "141731 / 20 < x" and hi: "x < 141733 / 20"
    unfolding assms by (simp_all add: power_divide)
  show "\<bar>x - 7086.6\<bar> < 0.05"
    unfolding abs_less_iff using lo hi by simp
  show "\<bar>x - 7121.9\<bar> > 35"
    unfolding abs_if using lo hi by simp
qed

text \<open>
  C2, as the code has it. Each of the six factory trims is the datasheet value of its trim
  byte for the full-scale code \<open>FS\<close>, which is 0. A trim byte of 1 gives 2620 exactly. A
  trim byte of 101 gives \<open>2620 * 1.01 ^ 100\<close>, which is 7086.6 to one decimal place.
\<close>

theorem factoryTrim_formula:
  "k < 6 \<Longrightarrow>
     factoryTrim st ! k = datasheet_trim FS (unat (st ! k)) \<and>
     FS = 0 \<and>
     (st ! k = 1 \<longrightarrow> factoryTrim st ! k = 2620) \<and>
     (st ! k = 101 \<longrightarrow> factoryTrim st ! k = 2620 * 1.01 ^ 100 \<and>
                         \<bar>factoryTrim st ! k - 7086.6\<bar> < 0.05)"
proof -
  assume k: "k < 6"
  have a: "factoryTrim st ! k = factoryTrim_of (st ! k)"
    using k by (rule factoryTrim_nth)
  have b: "factoryTrim_of (st ! k) = datasheet_trim FS (unat (st ! k))"
    by (simp add: factoryTrim_of_eq datasheet_trim_def FS_def)
  have c: "factoryTrim_of 1 = 2620"
    by (simp add: factoryTrim_of_eq)
  have d: "factoryTrim_of 101 = 2620 * 1.01 ^ 100"
    by (simp add: factoryTrim_of_eq)
  have e: "\<bar>factoryTrim_of 101 - 7086.6\<bar> < 0.05"
    using d by (rule trim_101_bounds)
  show ?thesis
    unfolding a using b c d e by (auto simp add: FS_def)
qed

theorem factoryTrim_formula_witness:
  "factoryTrim [1, 101, 0, 0, 0, 0] ! 0 = 2620 \<and>
   \<bar>factoryTrim [1, 101, 0, 0, 0, 0] ! 1 - 7086.6\<bar> < 0.05"
proof -
  have k0: "(0::nat) < 6" and k1: "(1::nat) < 6"
    by simp_all
  have s0: "[1, 101, 0, 0, 0, 0] ! 0 = (1 :: u8)"
    and s1: "[1, 101, 0, 0, 0, 0] ! 1 = (101 :: u8)"
    by simp_all
  show ?thesis
    using factoryTrim_formula [OF k0, of "[1, 101, 0, 0, 0, 0]"]
          factoryTrim_formula [OF k1, of "[1, 101, 0, 0, 0, 0]"] s0 s1
    by blast
qed

text \<open>
  The value the specification gives for a trim byte of 101, 7121.9, is more than 35 away from the
  trim the code computes.
\<close>

theorem factoryTrim_101_counterexample:
  "\<bar>factoryTrim [101, 101, 101, 101, 101, 101] ! 0 - 7121.9\<bar> > 35"
proof -
  have "factoryTrim [101, 101, 101, 101, 101, 101] ! 0 = 2620 * 1.01 ^ 100"
    by (simp add: factoryTrim_def factoryTrim_of_eq)
  then show ?thesis
    by (rule trim_101_bounds)
qed

subsection \<open>readMagnetometer\<close>

lemma axis_simps:
  "axis 0 v = fst v" "axis (Suc 0) v = fst (snd v)" "axis 2 v = snd (snd v)"
  by (cases v; simp)+

lemma less_3_cases: "i < 3 \<Longrightarrow> i = 0 \<or> i = Suc 0 \<or> i = 2"
  by arith

lemma readMagnetometer_axis:
  "i < 3 \<Longrightarrow>
   axis i (fst (readMagnetometer this magCount b)) =
     fmul (real_of_int (sint (axis i (fst (readMagData magCount b)))) * mRes this
             * axis i (magCalibration this) - axis i (magBias this))
          (axis i (magScale this))"
  by (auto dest!: less_3_cases simp add: readMagnetometer_def axis_simps split_beta Let_def)

text \<open>
  C5, as the code has it. On each axis the count left by \<^verbatim>\<open>readMagData\<close> is multiplied by
  the resolution and by the factory sensitivity of the axis, the bias is subtracted from
  that product, and the difference is multiplied by the soft-iron scale of the axis. A
  scale that is not finite gives a result that is not finite. The bus sees the one read of
  \<^verbatim>\<open>readMagData\<close>.
\<close>

theorem readMagnetometer_formula:
  "i < 3 \<Longrightarrow>
   (axis i (magScale this) = Finite s \<longrightarrow>
      axis i (fst (readMagnetometer this magCount b)) =
        Finite (mag_physical (real_of_int (sint (axis i (fst (readMagData magCount b)))))
                  (mRes this) (axis i (magCalibration this)) (axis i (magBias this)) s)) \<and>
   (axis i (magScale this) = NonFinite \<longrightarrow>
      axis i (fst (readMagnetometer this magCount b)) = NonFinite) \<and>
   snd (readMagnetometer this magCount b) = snd (readMagData magCount b)"
  by (simp add: readMagnetometer_axis mag_physical_def)
     (simp add: readMagnetometer_def split_beta Let_def)

theorem readMagnetometer_formula_witness:
  "axis 0 (fst (readMagnetometer imu0 (0, 0, 0)
      (bus_of (\<lambda>n j. if j = 0 then 3 else 0)))) = Finite 5"
proof -
  have "(0::nat) < 3"
    by simp
  from readMagnetometer_formula
         [OF this, of imu0 1 "(0, 0, 0)" "bus_of (\<lambda>n j. if j = 0 then 3 else 0)"]
  show ?thesis
    by (simp add: imu0_def bus_of_def readMagData_eq mag_physical_def int16_of_def)
qed

text \<open>
  With count 3, resolution 1, sensitivity 2, bias 1 and scale 1 the code returns
  \<open>(3 * 1 * 2 - 1) * 1 = 5\<close>, where the conversion as the specification words it gives
  \<open>(3 * 1 - 1) * 1 * 2 = 4\<close>.
\<close>

theorem readMagnetometer_spec_counterexample:
  "axis 0 (fst (readMagnetometer imu0 (0, 0, 0) (bus_of (\<lambda>n j. if j = 0 then 3 else 0))))
     \<noteq> Finite (spec_physical
           (real_of_int (sint (axis 0 (fst (readMagData (0, 0, 0)
              (bus_of (\<lambda>n j. if j = 0 then 3 else 0)))))))
           (mRes imu0) (axis 0 (magBias imu0)) 1 (axis 0 (magCalibration imu0))) \<and>
   axis 0 (magScale imu0) = Finite 1"
  by (simp add: readMagnetometer_def imu0_def bus_of_def readMagData_eq spec_physical_def
      int16_of_def)

subsection \<open>The calibration loop of the magnetometer\<close>

lemma buffer_seq_cong:
  "rx b = rx b' \<Longrightarrow> reads b = reads b' \<Longrightarrow> buffer_seq k t b = buffer_seq k t b'"
proof (induction k arbitrary: t b b')
  case 0
  show ?case by simp
next
  case (Suc k)
  have "fst (readMagData t b) = fst (readMagData t b')"
    using Suc.prems by (simp add: readMagData_eq)
  moreover have "buffer_seq k u (snd (readMagData t b)) = buffer_seq k u (snd (readMagData t b'))" for u
    using Suc.prems by (intro Suc.IH) (simp_all add: readMagData_eq)
  ultimately show ?case
    by (simp add: split_beta)
qed

lemma length_buffer_seq: "length (buffer_seq k t b) = k"
  by (induction k arbitrary: t b) (simp_all add: split_beta)

lemma mag_loop_fst:
  "fst (mag_loop k m t mm b) = (last (t # buffer_seq k t b), fold track3 (buffer_seq k t b) mm)"
proof (induction k arbitrary: t mm b)
  case 0
  show ?case by simp
next
  case (Suc k)
  obtain t' b' where r: "readMagData t b = (t', b')"
    by (cases "readMagData t b")
  define b'' where "b'' = (let b1 = (if m = M_8Hz then delay 135 b' else b')
                           in if m = M_100Hz then delay 12 b1 else b1)"
  have same: "rx b'' = rx b'" "reads b'' = reads b'"
    by (simp_all add: b''_def delay_def emit_def Let_def)
  have "fst (mag_loop (Suc k) m t mm b) = fst (mag_loop k m t' (track3 t' mm) b'')"
    by (simp add: r b''_def Let_def)
  also have "\<dots> = (last (t' # buffer_seq k t' b''), fold track3 (buffer_seq k t' b'') (track3 t' mm))"
    by (rule Suc.IH)
  also have "buffer_seq k t' b'' = buffer_seq k t' b'"
    using same by (rule buffer_seq_cong)
  finally show ?case
    by (simp add: r)
qed

lemma track_sint:
  "sint (fst (track t (mx, mn))) = max (sint t) (sint mx)"
  "sint (snd (track t (mx, mn))) = min (sint t) (sint mn)"
  by (simp_all add: track_def Let_def max_def min_def)

lemma track3_axis:
  "i < 3 \<Longrightarrow> sint (axis i (fst (track3 t mm))) = max (sint (axis i t)) (sint (axis i (fst mm)))"
  "i < 3 \<Longrightarrow> sint (axis i (snd (track3 t mm))) = min (sint (axis i t)) (sint (axis i (snd mm)))"
  by (auto dest!: less_3_cases simp add: track3_def axis_simps split_beta Let_def track_sint)

lemma fold_track3_max:
  "i < 3 \<Longrightarrow> sint (axis i (fst (fold track3 ts mm))) =
     fold max (map (\<lambda>t. sint (axis i t)) ts) (sint (axis i (fst mm)))"
  by (induction ts arbitrary: mm) (simp_all add: track3_axis)

lemma fold_track3_min:
  "i < 3 \<Longrightarrow> sint (axis i (snd (fold track3 ts mm))) =
     fold min (map (\<lambda>t. sint (axis i t)) ts) (sint (axis i (snd mm)))"
  by (induction ts arbitrary: mm) (simp_all add: track3_axis)

lemma fold_max_Max: "cs \<noteq> [] \<Longrightarrow> fold max cs (a::int) = max a (Max (set cs))"
  by (metis Max.set_eq_fold Max_insert List.finite_set list.simps(15) set_empty)

lemma fold_min_Min: "cs \<noteq> [] \<Longrightarrow> fold min cs (a::int) = min a (Min (set cs))"
  by (metis Min.set_eq_fold Min_insert List.finite_set list.simps(15) set_empty)

lemma sample_count_pos: "0 < sample_count m"
  by (cases m) (simp_all add: sample_count_def)

lemma examined_nonempty: "examined i this b \<noteq> []"
  using sample_count_pos [of "mMode this"]
  by (simp add: examined_def length_buffer_seq flip: length_greater_0_conv)

lemma examined_range: "c \<in> set (examined i this b) \<Longrightarrow> - 32768 \<le> c \<and> c \<le> 32767"
proof -
  assume "c \<in> set (examined i this b)"
  then obtain w :: i16 where "c = sint w"
    by (auto simp add: examined_def)
  then show ?thesis
    using sint_ge [of w] sint_lt [of w] by simp
qed

lemma Min_examined_range:
  "- 32768 \<le> Min (set (examined i this b))" "Min (set (examined i this b)) \<le> 32767"
  "- 32768 \<le> Max (set (examined i this b))" "Max (set (examined i this b)) \<le> 32767"
  using examined_range [of "Min (set (examined i this b))" i this b]
        examined_range [of "Max (set (examined i this b))" i this b]
        examined_nonempty [of i this b]
  by simp_all

lemma Min_le_Max_examined: "Min (set (examined i this b)) \<le> Max (set (examined i this b))"
  using examined_nonempty [of i this b] by (simp add: Min_le_iff)

lemma loop_max:
  "i < 3 \<Longrightarrow>
   sint (axis i (fst (snd (fst (mag_loop (sample_count (mMode this)) (mMode this) (0, 0, 0)
      ((- 32767, - 32767, - 32767), (32767, 32767, 32767)) b))))) =
   max (- 32767) (Max (set (examined i this b)))"
  using examined_nonempty [of i this b]
  by (auto dest!: less_3_cases simp add: mag_loop_fst fold_track3_max fold_max_Max examined_def axis_simps)

lemma loop_min:
  "i < 3 \<Longrightarrow>
   sint (axis i (snd (snd (fst (mag_loop (sample_count (mMode this)) (mMode this) (0, 0, 0)
      ((- 32767, - 32767, - 32767), (32767, 32767, 32767)) b))))) =
   Min (set (examined i this b))"
  using examined_nonempty [of i this b] Min_examined_range(2) [of i this b]
  by (auto dest!: less_3_cases simp add: mag_loop_fst fold_track3_min fold_min_Min examined_def axis_simps)

lemma calibrate_magBias:
  "i < 3 \<Longrightarrow>
   axis i (magBias (fst (calibrateMagnetometer this b))) =
     real_of_int ((max (- 32767) (Max (set (examined i this b))) + Min (set (examined i this b))) sdiv 2)
       * mRes this * axis i (magCalibration this)"
proof -
  assume i: "i < 3"
  show ?thesis
    unfolding loop_max [OF i, symmetric] loop_min [OF i, symmetric]
    using i
    by (auto dest!: less_3_cases simp add: calibrateMagnetometer_def axis_simps split_beta Let_def)
qed

lemma half_swing_sentinel:
  "(max (- 32767) (Max (set (examined i this b))) - Min (set (examined i this b))) sdiv 2 =
   half_swing (examined i this b)"
proof (cases "- 32767 \<le> Max (set (examined i this b))")
  case True
  then show ?thesis by (simp add: half_swing_def max_def)
next
  case False
  then have "Max (set (examined i this b)) = - 32768"
    using Min_examined_range(3) [of i this b] by simp
  moreover from this have "Min (set (examined i this b)) = - 32768"
    using Min_le_Max_examined [of i this b] Min_examined_range(1) [of i this b] by simp
  ultimately show ?thesis
    by (simp add: half_swing_def signed_divide_int_def)
qed

lemma calibrate_magScale:
  "i < 3 \<Longrightarrow>
   axis i (magScale (fst (calibrateMagnetometer this b))) =
     fdiv (real_of_int (half_swing (examined 0 this b) + half_swing (examined 1 this b)
                        + half_swing (examined 2 this b)) / 3)
          (real_of_int (half_swing (examined i this b)))"
proof -
  assume i: "i < 3"
  have k: "(0::nat) < 3" "(1::nat) < 3" "(2::nat) < 3"
    by simp_all
  show ?thesis
    unfolding half_swing_sentinel [symmetric]
    unfolding loop_max [OF i, symmetric] loop_min [OF i, symmetric]
      loop_max [OF k(1), symmetric] loop_min [OF k(1), symmetric]
      loop_max [OF k(2), symmetric] loop_min [OF k(2), symmetric]
      loop_max [OF k(3), symmetric] loop_min [OF k(3), symmetric]
    using i
    by (auto dest!: less_3_cases simp add: calibrateMagnetometer_def axis_simps split_beta Let_def)
qed

subsection \<open>The buffer and the observed counts\<close>

lemma upt_Suc_shift: "[0..<Suc k] = 0 # map Suc [0..<k]"
  by (simp add: upt_conv_Cons map_Suc_upt del: upt_Suc)

lemma answers_Suc:
  "answers b (Suc k) =
     rx b (reads b) # answers (b\<lparr>reads := Suc (reads b), trace := tr\<rparr>) k"
  by (simp add: answers_def upt_Suc_shift comp_def del: upt_Suc)

lemma set_buffer_seq:
  "set (buffer_seq k t b) =
     mag_decode ` set (filter (\<lambda>a. \<not> overflow a) (answers b k))
     \<union> (if 0 < k \<and> overflow (rx b (reads b)) then {t} else {})"
proof (induction k arbitrary: t b)
  case 0
  show ?case by (simp add: answers_def)
next
  case (Suc k)
  define a where "a = rx b (reads b)"
  define b' where
    "b' = b\<lparr>reads := Suc (reads b), trace := trace b @ [ReadAK AK8963_XOUT_L 7]\<rparr>"
  define t' where "t' = (if overflow a then t else mag_decode a)"
  have r: "readMagData t b = (t', b')"
    by (simp add: readMagData_eq a_def b'_def t'_def overflow_def mag_decode_def)
  have an: "answers b (Suc k) = a # answers b' k"
    unfolding a_def b'_def by (rule answers_Suc)
  have "set (buffer_seq (Suc k) t b) = insert t' (set (buffer_seq k t' b'))"
    by (simp add: r)
  also have "\<dots> = insert t' (mag_decode ` set (filter (\<lambda>a. \<not> overflow a) (answers b' k)))"
    unfolding Suc.IH by auto
  also have "\<dots> = mag_decode ` set (filter (\<lambda>a. \<not> overflow a) (answers b (Suc k)))
                   \<union> (if 0 < Suc k \<and> overflow (rx b (reads b)) then {t} else {})"
    unfolding an by (auto simp add: t'_def a_def)
  finally show ?case .
qed

lemma axis_decode: "i < 3 \<Longrightarrow> sint (axis i (mag_decode a)) = axis_count i a"
  by (auto dest!: less_3_cases simp add: mag_decode_def axis_count_def sint_int16_of axis_simps)

lemma set_examined:
  assumes "i < 3"
  shows "set (examined i this b) =
           set (observed i this b) \<union> (if overflow (rx b (reads b)) then {0} else {})"
proof -
  have d: "(\<lambda>t. sint (axis i t)) ` mag_decode ` A = axis_count i ` A" for A
    using assms by (simp add: image_image axis_decode)
  have z: "sint (axis i ((0, 0, 0) :: i16 vec3)) = 0"
    by simp
  show ?thesis
    using sample_count_pos [of "mMode this"]
    by (simp add: examined_def observed_def set_buffer_seq image_Un d z del: axis.simps)
qed

lemma set_examined_delivered:
  "i < 3 \<Longrightarrow> \<not> overflow (rx b (reads b)) \<Longrightarrow> set (examined i this b) = set (observed i this b)"
  by (simp add: set_examined)

lemma half_swing_delivered:
  "i < 3 \<Longrightarrow> \<not> overflow (rx b (reads b)) \<Longrightarrow>
   half_swing (examined i this b) = half_swing (observed i this b)"
  by (simp add: half_swing_def set_examined_delivered)

lemma answers_two_phase: "answers (two_phase f g) (Suc k) = f # replicate k g"
  by (simp add: answers_def two_phase_def bus_of_def upt_Suc_shift comp_def map_replicate_const
      del: upt_Suc)

lemma sample_count_Suc: "\<exists>k. sample_count m = Suc (Suc k)"
  by (cases m) (simp_all add: sample_count_def eval_nat_numeral)

lemma set_observed_two_phase:
  "set (observed i this (two_phase f g)) =
     (if overflow f then {} else {axis_count i f}) \<union> (if overflow g then {} else {axis_count i g})"
proof -
  obtain k where "sample_count (mMode this) = Suc (Suc k)"
    using sample_count_Suc by blast
  then show ?thesis
    by (auto simp add: observed_def answers_two_phase filter_replicate)
qed

lemma two_phase_first: "rx (two_phase f g) (reads (two_phase f g)) = f"
  by (simp add: two_phase_def bus_of_def)

lemma set_examined_two_phase:
  "i < 3 \<Longrightarrow>
   set (examined i this (two_phase f g)) =
     (if overflow f then {0} else {axis_count i f}) \<union> (if overflow g then {} else {axis_count i g})"
  by (auto simp add: set_examined set_observed_two_phase two_phase_first)

lemma overflow_xyz_bytes: "\<not> overflow (xyz_bytes x y z)"
  by (simp add: overflow_def xyz_bytes_def)

lemma overflow_overflow_bytes: "overflow overflow_bytes"
  by (simp add: overflow_def overflow_bytes_def)

lemma axis_count_examples:
  "axis_count 0 (xyz_bytes 100 100 100) = 100"
  "axis_count (Suc 0) (xyz_bytes 100 100 100) = 100"
  "axis_count 2 (xyz_bytes 100 100 100) = 100"
  "axis_count 0 (xyz_bytes (- 100) (- 100) (- 100)) = - 100"
  "axis_count (Suc 0) (xyz_bytes (- 100) (- 100) (- 100)) = - 100"
  "axis_count 2 (xyz_bytes (- 100) (- 100) (- 100)) = - 100"
  "axis_count 0 (xyz_bytes 100 200 100) = 100"
  "axis_count (Suc 0) (xyz_bytes 100 200 100) = 200"
  "axis_count 2 (xyz_bytes 100 200 100) = 100"
  "axis_count 0 (xyz_bytes (- 100) (- 200) (- 100)) = - 100"
  "axis_count (Suc 0) (xyz_bytes (- 100) (- 200) (- 100)) = - 200"
  "axis_count 2 (xyz_bytes (- 100) (- 200) (- 100)) = - 100"
  "axis_count 0 (xyz_bytes 150 150 150) = 150"
  "axis_count 0 (xyz_bytes 50 50 50) = 50"
  "axis_count 0 (xyz_bytes 5 5 5) = 5"
  "axis_count 0 (xyz_bytes 200 300 400) = 200"
  "axis_count (Suc 0) (xyz_bytes 200 300 400) = 300"
  "axis_count 2 (xyz_bytes 200 300 400) = 400"
  "axis_count 0 (xyz_bytes 1 1 1) = 1"
  "axis_count (Suc 0) (xyz_bytes 1 1 1) = 1"
  "axis_count 2 (xyz_bytes 1 1 1) = 1"
  "axis_count 0 (xyz_bytes 0 0 0) = 0"
  "axis_count (Suc 0) (xyz_bytes 0 0 0) = 0"
  "axis_count 2 (xyz_bytes 0 0 0) = 0"
  "axis_count 0 (xyz_bytes (- 32768) 0 0) = - 32768"
  by (simp_all add: axis_count_def signed16_le_def xyz_bytes_def)

subsection \<open>Soft-iron scale and hard-iron bias\<close>

lemma vec3_eq_axis: "v = (axis 0 v, axis 1 v, axis 2 v)"
  by (cases v) simp

lemma magScale_triple:
  "magScale (fst (calibrateMagnetometer this b)) =
     (fdiv (real_of_int (half_swing (examined 0 this b) + half_swing (examined 1 this b)
                         + half_swing (examined 2 this b)) / 3)
           (real_of_int (half_swing (examined 0 this b))),
      fdiv (real_of_int (half_swing (examined 0 this b) + half_swing (examined 1 this b)
                         + half_swing (examined 2 this b)) / 3)
           (real_of_int (half_swing (examined 1 this b))),
      fdiv (real_of_int (half_swing (examined 0 this b) + half_swing (examined 1 this b)
                         + half_swing (examined 2 this b)) / 3)
           (real_of_int (half_swing (examined 2 this b))))"
proof -
  have k: "(0::nat) < 3" "(1::nat) < 3" "(2::nat) < 3"
    by simp_all
  show ?thesis
    by (subst vec3_eq_axis [of "magScale (fst (calibrateMagnetometer this b))"])
       (simp only: calibrate_magScale [OF k(1)] calibrate_magScale [OF k(2)]
          calibrate_magScale [OF k(3)])
qed

lemma magScale_observed:
  assumes "\<not> overflow (rx b (reads b))"
  shows "magScale (fst (calibrateMagnetometer this b)) =
     (fdiv (real_of_int (half_swing (observed 0 this b) + half_swing (observed 1 this b)
                         + half_swing (observed 2 this b)) / 3)
           (real_of_int (half_swing (observed 0 this b))),
      fdiv (real_of_int (half_swing (observed 0 this b) + half_swing (observed 1 this b)
                         + half_swing (observed 2 this b)) / 3)
           (real_of_int (half_swing (observed 1 this b))),
      fdiv (real_of_int (half_swing (observed 0 this b) + half_swing (observed 1 this b)
                         + half_swing (observed 2 this b)) / 3)
           (real_of_int (half_swing (observed 2 this b))))"
  using assms by (simp add: magScale_triple half_swing_delivered)

lemma magScale_axis_observed:
  assumes "i < 3" and "\<not> overflow (rx b (reads b))"
  shows "axis i (magScale (fst (calibrateMagnetometer this b))) =
     fdiv (real_of_int (half_swing (observed 0 this b) + half_swing (observed 1 this b)
                        + half_swing (observed 2 this b)) / 3)
          (real_of_int (half_swing (observed i this b)))"
  using assms by (simp add: calibrate_magScale half_swing_delivered)

text \<open>
  C7, as the code has it. When the first read of the loop delivers a sample, the
  soft-iron scale of an axis after \<^verbatim>\<open>calibrateMagnetometer\<close> is the average of the three
  half-swings divided by the half-swing of that axis, where the half-swing of an axis is
  the maximum minus the minimum of the observed counts, halved by the integer division of
  C, which truncates; a half-swing of zero gives a value that is not finite. Half-swings
  of 100, 100, 100 give the scales 1, 1, 1; half-swings of 100, 200, 100 give the average
  400/3, which is 133.33 to two decimals, and the scales 4/3, 2/3, 4/3, which are 1.333,
  0.667, 1.333 to three decimals. Nothing is said here about a run whose first read
  reports overflow.
\<close>

theorem soft_iron_scale:
  "i < 3 \<Longrightarrow> \<not> overflow (rx b (reads b)) \<Longrightarrow>
   axis i (magScale (fst (calibrateMagnetometer this b))) =
     fdiv (real_of_int (half_swing (observed 0 this b) + half_swing (observed 1 this b)
                        + half_swing (observed 2 this b)) / 3)
          (real_of_int (half_swing (observed i this b))) \<and>
   (half_swing (observed 0 this b) = 100 \<and> half_swing (observed 1 this b) = 100 \<and>
    half_swing (observed 2 this b) = 100 \<longrightarrow>
      magScale (fst (calibrateMagnetometer this b)) = (Finite 1, Finite 1, Finite 1)) \<and>
   (half_swing (observed 0 this b) = 100 \<and> half_swing (observed 1 this b) = 200 \<and>
    half_swing (observed 2 this b) = 100 \<longrightarrow>
      real_of_int (half_swing (observed 0 this b) + half_swing (observed 1 this b)
                   + half_swing (observed 2 this b)) / 3 = 400 / 3 \<and>
      \<bar>400 / 3 - 133.33\<bar> < (0.005 :: real) \<and>
      magScale (fst (calibrateMagnetometer this b)) =
        (Finite (4 / 3), Finite (2 / 3), Finite (4 / 3)) \<and>
      \<bar>4 / 3 - 1.333\<bar> < (0.0005 :: real) \<and> \<bar>2 / 3 - 0.667\<bar> < (0.0005 :: real))"
proof -
  assume i: "i < 3" and d: "\<not> overflow (rx b (reads b))"
  note t = magScale_observed [OF d, of this]
  have n: "\<bar>400 / 3 - 133.33\<bar> < (0.005 :: real)" "\<bar>4 / 3 - 1.333\<bar> < (0.0005 :: real)"
    "\<bar>2 / 3 - 0.667\<bar> < (0.0005 :: real)"
    by (simp_all add: abs_if)
  have e1: "magScale (fst (calibrateMagnetometer this b)) = (Finite 1, Finite 1, Finite 1)"
    if "half_swing (observed 0 this b) = 100 \<and> half_swing (observed 1 this b) = 100 \<and>
        half_swing (observed 2 this b) = 100"
    using that by (simp add: t fdiv_def)
  have e2: "real_of_int (half_swing (observed 0 this b) + half_swing (observed 1 this b)
                   + half_swing (observed 2 this b)) / 3 = 400 / 3 \<and>
      magScale (fst (calibrateMagnetometer this b)) =
        (Finite (4 / 3), Finite (2 / 3), Finite (4 / 3))"
    if "half_swing (observed 0 this b) = 100 \<and> half_swing (observed 1 this b) = 200 \<and>
        half_swing (observed 2 this b) = 100"
    using that by (simp add: t fdiv_def)
  show ?thesis
    using magScale_axis_observed [OF i d, of this] n e1 e2 by blast
qed

theorem soft_iron_scale_witness:
  "magScale (fst (calibrateMagnetometer imu0
      (two_phase (xyz_bytes 100 100 100) (xyz_bytes (- 100) (- 100) (- 100))))) =
     (Finite 1, Finite 1, Finite 1) \<and>
   magScale (fst (calibrateMagnetometer imu0
      (two_phase (xyz_bytes 100 200 100) (xyz_bytes (- 100) (- 200) (- 100))))) =
     (Finite (4 / 3), Finite (2 / 3), Finite (4 / 3))"
proof -
  have k: "(0::nat) < 3"
    by simp
  have d: "\<not> overflow (rx (two_phase (xyz_bytes x y z) g)
                          (reads (two_phase (xyz_bytes x y z) g)))" for x y z g
    by (simp add: two_phase_first overflow_xyz_bytes)
  have a: "half_swing (observed 0 imu0
      (two_phase (xyz_bytes 100 100 100) (xyz_bytes (- 100) (- 100) (- 100)))) = 100"
    "half_swing (observed 1 imu0
      (two_phase (xyz_bytes 100 100 100) (xyz_bytes (- 100) (- 100) (- 100)))) = 100"
    "half_swing (observed 2 imu0
      (two_phase (xyz_bytes 100 100 100) (xyz_bytes (- 100) (- 100) (- 100)))) = 100"
    by (simp_all add: half_swing_def set_observed_two_phase overflow_xyz_bytes
        axis_count_examples signed_divide_int_def)
  have b: "half_swing (observed 0 imu0
      (two_phase (xyz_bytes 100 200 100) (xyz_bytes (- 100) (- 200) (- 100)))) = 100"
    "half_swing (observed 1 imu0
      (two_phase (xyz_bytes 100 200 100) (xyz_bytes (- 100) (- 200) (- 100)))) = 200"
    "half_swing (observed 2 imu0
      (two_phase (xyz_bytes 100 200 100) (xyz_bytes (- 100) (- 200) (- 100)))) = 100"
    by (simp_all add: half_swing_def set_observed_two_phase overflow_xyz_bytes
        axis_count_examples signed_divide_int_def)
  show ?thesis
    using soft_iron_scale [OF k d, of imu0 100 100 100 "xyz_bytes (- 100) (- 100) (- 100)"]
          soft_iron_scale [OF k d, of imu0 100 200 100 "xyz_bytes (- 100) (- 200) (- 100)"]
          a b
    by simp
qed

text \<open>
  Two runs on which the specification's scale is not the one the code stores. When the
  first read reports overflow and every later read delivers 200, 300, 400, the observed
  half-swings are 0, but the code tracks the 0 the buffer starts with and stores the
  scale 3/2 for the x axis. When the first read delivers 1, 1, 1 and every later read
  0, 0, 0, each half-swing is 1/2 and the specification's scale is 1, but the code halves
  to 0 and divides by zero.
\<close>

theorem soft_iron_scale_counterexample:
  "axis 0 (magScale (fst (calibrateMagnetometer imu0 bus_overflow_first))) = Finite (3 / 2) \<and>
   spec_soft_iron 0 imu0 bus_overflow_first = NonFinite \<and>
   axis 0 (magScale (fst (calibrateMagnetometer imu0 bus_swing_one))) = NonFinite \<and>
   spec_soft_iron 0 imu0 bus_swing_one = Finite 1"
proof -
  have k: "(0::nat) < 3"
    by simp
  have "axis 0 (magScale (fst (calibrateMagnetometer imu0 bus_overflow_first))) = Finite (3 / 2)"
    by (simp add: calibrate_magScale [OF k] half_swing_def set_examined_two_phase
        bus_overflow_first_def overflow_xyz_bytes overflow_overflow_bytes axis_count_examples
        signed_divide_int_def fdiv_def)
  moreover have "spec_soft_iron 0 imu0 bus_overflow_first = NonFinite"
    by (simp add: spec_soft_iron_def spec_half_swing_def set_observed_two_phase
        bus_overflow_first_def overflow_xyz_bytes overflow_overflow_bytes fdiv_def)
  moreover have "axis 0 (magScale (fst (calibrateMagnetometer imu0 bus_swing_one))) = NonFinite"
    by (simp add: calibrate_magScale [OF k] half_swing_def set_examined_two_phase
        bus_swing_one_def overflow_xyz_bytes axis_count_examples signed_divide_int_def fdiv_def)
  moreover have "spec_soft_iron 0 imu0 bus_swing_one = Finite 1"
    by (simp add: spec_soft_iron_def spec_half_swing_def set_observed_two_phase
        bus_swing_one_def overflow_xyz_bytes axis_count_examples fdiv_def)
  ultimately show ?thesis
    by blast
qed

lemma half_swing_zero:
  "Max (set cs) = Min (set cs) \<Longrightarrow> half_swing cs = 0"
  by (simp add: half_swing_def signed_divide_int_def)

text \<open>
  C8. Nothing guards the division. Whenever the first read delivers a sample and the
  maximum and the minimum of the observed counts of an axis are equal, the scale of that
  axis is the result of a division by zero; so it is when the first read reports overflow
  and every observed count of the axis is 0, the value the buffer starts with. There are
  answers of the device, delivered from the first read on, for which the maximum and the
  minimum are equal and the division by zero happens.
\<close>

theorem zero_swing_divides_by_zero:
  "i < 3 \<Longrightarrow>
   (\<not> overflow (rx b (reads b)) \<and>
    Max (set (observed i this b)) = Min (set (observed i this b)) \<longrightarrow>
      axis i (magScale (fst (calibrateMagnetometer this b))) = NonFinite) \<and>
   (overflow (rx b (reads b)) \<and> (\<forall>c \<in> set (observed i this b). c = 0) \<longrightarrow>
      axis i (magScale (fst (calibrateMagnetometer this b))) = NonFinite) \<and>
   (\<exists>b'. \<not> overflow (rx b' (reads b')) \<and>
         Max (set (observed i this b')) = Min (set (observed i this b')) \<and>
         axis i (magScale (fst (calibrateMagnetometer this b'))) = NonFinite)"
proof -
  assume i: "i < 3"
  have a: "axis i (magScale (fst (calibrateMagnetometer this c))) = NonFinite"
    if "\<not> overflow (rx c (reads c))"
      and "Max (set (observed i this c)) = Min (set (observed i this c))" for c
  proof -
    have "half_swing (examined i this c) = 0"
      using that i by (simp add: half_swing_delivered half_swing_zero)
    then show ?thesis
      by (simp add: calibrate_magScale [OF i] fdiv_def)
  qed
  have z: "axis i (magScale (fst (calibrateMagnetometer this b))) = NonFinite"
    if "overflow (rx b (reads b))" and "\<forall>c \<in> set (observed i this b). c = 0"
  proof -
    have "set (examined i this b) = {0}"
      using that i by (auto simp add: set_examined)
    then have "half_swing (examined i this b) = 0"
      by (simp add: half_swing_def)
    then show ?thesis
      by (simp add: calibrate_magScale [OF i] fdiv_def)
  qed
  have d: "\<not> overflow (rx (two_phase (xyz_bytes 5 5 5) (xyz_bytes 5 5 5))
                          (reads (two_phase (xyz_bytes 5 5 5) (xyz_bytes 5 5 5))))"
    by (simp add: two_phase_first overflow_xyz_bytes)
  have e: "Max (set (observed i this (two_phase (xyz_bytes 5 5 5) (xyz_bytes 5 5 5)))) =
           Min (set (observed i this (two_phase (xyz_bytes 5 5 5) (xyz_bytes 5 5 5))))"
    by (simp add: set_observed_two_phase overflow_xyz_bytes)
  have "\<exists>b'. \<not> overflow (rx b' (reads b')) \<and>
         Max (set (observed i this b')) = Min (set (observed i this b')) \<and>
         axis i (magScale (fst (calibrateMagnetometer this b'))) = NonFinite"
    using d e a [OF d e] by blast
  then show ?thesis
    using a [of b] z by blast
qed

theorem zero_swing_divides_by_zero_witness:
  "\<not> overflow (rx (two_phase (xyz_bytes 5 5 5) (xyz_bytes 5 5 5))
                  (reads (two_phase (xyz_bytes 5 5 5) (xyz_bytes 5 5 5)))) \<and>
   Max (set (observed 0 imu0 (two_phase (xyz_bytes 5 5 5) (xyz_bytes 5 5 5)))) =
   Min (set (observed 0 imu0 (two_phase (xyz_bytes 5 5 5) (xyz_bytes 5 5 5)))) \<and>
   axis 0 (magScale (fst (calibrateMagnetometer imu0
     (two_phase (xyz_bytes 5 5 5) (xyz_bytes 5 5 5))))) = NonFinite"
proof -
  have k: "(0::nat) < 3"
    by simp
  have d: "\<not> overflow (rx (two_phase (xyz_bytes 5 5 5) (xyz_bytes 5 5 5))
                          (reads (two_phase (xyz_bytes 5 5 5) (xyz_bytes 5 5 5))))"
    by (simp add: two_phase_first overflow_xyz_bytes)
  have e: "Max (set (observed 0 imu0 (two_phase (xyz_bytes 5 5 5) (xyz_bytes 5 5 5)))) =
           Min (set (observed 0 imu0 (two_phase (xyz_bytes 5 5 5) (xyz_bytes 5 5 5))))"
    by (simp add: set_observed_two_phase overflow_xyz_bytes)
  show ?thesis
    using zero_swing_divides_by_zero [OF k, of "two_phase (xyz_bytes 5 5 5) (xyz_bytes 5 5 5)" imu0]
          d e
    by blast
qed

lemma observed_range:
  assumes "i < 3" and "c \<in> set (observed i this b)"
  shows "- 32768 \<le> c \<and> c \<le> 32767"
proof -
  have "c \<in> set (examined i this b)"
    using assms by (simp add: set_examined)
  then show ?thesis
    by (rule examined_range)
qed

text \<open>
  C9, as the code has it. When the first read of the loop delivers a sample and some
  observed count of the axis is above -32768, the hard-iron bias of the axis after
  \<^verbatim>\<open>calibrateMagnetometer\<close> is the midpoint of the maximum and the minimum of the observed
  counts, halved by the integer division of C, which truncates, times the resolution,
  times the factory sensitivity of the axis. A maximum of 100 and a minimum of -100 give
  the bias 0, a maximum of 150 and a minimum of 50 give 100 counts. Nothing is said here
  about a run whose first read reports overflow, or whose counts on the axis are all
  -32768.
\<close>

theorem hard_iron_bias:
  "i < 3 \<Longrightarrow> \<not> overflow (rx b (reads b)) \<Longrightarrow>
   \<exists>c \<in> set (observed i this b). c \<noteq> - 32768 \<Longrightarrow>
   axis i (magBias (fst (calibrateMagnetometer this b))) =
     real_of_int (midpoint (observed i this b)) * mRes this * axis i (magCalibration this) \<and>
   (Max (set (observed i this b)) = 100 \<and> Min (set (observed i this b)) = - 100 \<longrightarrow>
      midpoint (observed i this b) = 0 \<and>
      axis i (magBias (fst (calibrateMagnetometer this b))) = 0) \<and>
   (Max (set (observed i this b)) = 150 \<and> Min (set (observed i this b)) = 50 \<longrightarrow>
      midpoint (observed i this b) = 100 \<and>
      axis i (magBias (fst (calibrateMagnetometer this b))) =
        100 * mRes this * axis i (magCalibration this))"
proof -
  assume i: "i < 3" and d: "\<not> overflow (rx b (reads b))"
    and ex: "\<exists>c \<in> set (observed i this b). c \<noteq> - 32768"
  from ex obtain c where c: "c \<in> set (observed i this b)" "c \<noteq> - 32768"
    by blast
  then have "- 32767 \<le> c"
    using observed_range [OF i c(1)] by simp
  also have "c \<le> Max (set (observed i this b))"
    using c(1) by simp
  finally have m: "max (- 32767) (Max (set (observed i this b))) = Max (set (observed i this b))"
    by simp
  have eq: "axis i (magBias (fst (calibrateMagnetometer this b))) =
     real_of_int (midpoint (observed i this b)) * mRes this * axis i (magCalibration this)"
    using calibrate_magBias [OF i, of this b] m
    by (simp add: set_examined_delivered [OF i d] midpoint_def)
  have e1: "midpoint (observed i this b) = 0 \<and>
      axis i (magBias (fst (calibrateMagnetometer this b))) = 0"
    if "Max (set (observed i this b)) = 100 \<and> Min (set (observed i this b)) = - 100"
    using that by (simp add: eq) (simp add: midpoint_def)
  have e2: "midpoint (observed i this b) = 100 \<and>
      axis i (magBias (fst (calibrateMagnetometer this b))) =
        100 * mRes this * axis i (magCalibration this)"
    if "Max (set (observed i this b)) = 150 \<and> Min (set (observed i this b)) = 50"
    using that by (simp add: eq) (simp add: midpoint_def signed_divide_int_def)
  show ?thesis
    using eq e1 e2 by blast
qed

theorem hard_iron_bias_witness:
  "axis 0 (magBias (fst (calibrateMagnetometer imu0
      (two_phase (xyz_bytes 100 100 100) (xyz_bytes (- 100) (- 100) (- 100)))))) = 0 \<and>
   axis 0 (magBias (fst (calibrateMagnetometer imu0
      (two_phase (xyz_bytes 150 150 150) (xyz_bytes 50 50 50))))) = 200 \<and>
   \<not> overflow (rx (two_phase (xyz_bytes 150 150 150) (xyz_bytes 50 50 50))
                  (reads (two_phase (xyz_bytes 150 150 150) (xyz_bytes 50 50 50)))) \<and>
   (\<exists>c \<in> set (observed 0 imu0 (two_phase (xyz_bytes 150 150 150) (xyz_bytes 50 50 50))).
      c \<noteq> - 32768)"
proof -
  have k: "(0::nat) < 3"
    by simp
  have d: "\<not> overflow (rx (two_phase (xyz_bytes x y z) g)
                          (reads (two_phase (xyz_bytes x y z) g)))" for x y z g
    by (simp add: two_phase_first overflow_xyz_bytes)
  have a: "Max (set (observed 0 imu0
             (two_phase (xyz_bytes 100 100 100) (xyz_bytes (- 100) (- 100) (- 100))))) = 100 \<and>
           Min (set (observed 0 imu0
             (two_phase (xyz_bytes 100 100 100) (xyz_bytes (- 100) (- 100) (- 100))))) = - 100"
    by (simp add: set_observed_two_phase overflow_xyz_bytes axis_count_examples)
  have a': "\<exists>c \<in> set (observed 0 imu0
             (two_phase (xyz_bytes 100 100 100) (xyz_bytes (- 100) (- 100) (- 100)))).
      c \<noteq> - 32768"
    by (simp add: set_observed_two_phase overflow_xyz_bytes axis_count_examples)
  have b: "Max (set (observed 0 imu0
             (two_phase (xyz_bytes 150 150 150) (xyz_bytes 50 50 50)))) = 150 \<and>
           Min (set (observed 0 imu0
             (two_phase (xyz_bytes 150 150 150) (xyz_bytes 50 50 50)))) = 50"
    by (simp add: set_observed_two_phase overflow_xyz_bytes axis_count_examples)
  have b': "\<exists>c \<in> set (observed 0 imu0 (two_phase (xyz_bytes 150 150 150) (xyz_bytes 50 50 50))).
      c \<noteq> - 32768"
    by (simp add: set_observed_two_phase overflow_xyz_bytes axis_count_examples)
  have v: "mRes imu0 = 1" "axis 0 (magCalibration imu0) = 2"
    by (simp_all add: imu0_def)
  show ?thesis
    using hard_iron_bias [OF k d a']
          hard_iron_bias [OF k d b']
          a b b' d [of 150 150 150 "xyz_bytes 50 50 50"] v
    by simp
qed

text \<open>
  Three runs on which the specification's bias is not the one the code stores, with
  resolution 1 and sensitivity 2. When the first read reports overflow and every later
  read delivers 200 on the x axis, the midpoint of the observed counts is 200 and the
  specification's bias 400, but the code tracks the 0 the buffer starts with and stores
  200. When the first read delivers 1 and every later read 0, the midpoint is 1/2 and the
  specification's bias 1, but the code halves to 0 and stores 0. When every read delivers
  -32768, a count beyond the full scale of the device, the running maximum stays at
  -32767 and the code stores -65534 where the specification's bias is -65536.
\<close>

theorem hard_iron_bias_counterexample:
  "axis 0 (magBias (fst (calibrateMagnetometer imu0 bus_overflow_first))) = 200 \<and>
   spec_hard_iron 0 imu0 bus_overflow_first = 400 \<and>
   axis 0 (magBias (fst (calibrateMagnetometer imu0 bus_swing_one))) = 0 \<and>
   spec_hard_iron 0 imu0 bus_swing_one = 1 \<and>
   axis 0 (magBias (fst (calibrateMagnetometer imu0 bus_all_least))) = - 65534 \<and>
   spec_hard_iron 0 imu0 bus_all_least = - 65536"
proof -
  have k: "(0::nat) < 3"
    by simp
  have v: "mRes imu0 = 1" "axis 0 (magCalibration imu0) = 2"
    by (simp_all add: imu0_def)
  have "axis 0 (magBias (fst (calibrateMagnetometer imu0 bus_overflow_first))) = 200"
    by (simp add: calibrate_magBias [OF k] set_examined_two_phase bus_overflow_first_def
        overflow_xyz_bytes overflow_overflow_bytes axis_count_examples signed_divide_int_def v)
  moreover have "spec_hard_iron 0 imu0 bus_overflow_first = 400"
    by (simp add: spec_hard_iron_def spec_midpoint_def set_observed_two_phase
        bus_overflow_first_def overflow_xyz_bytes overflow_overflow_bytes axis_count_examples v)
  moreover have "axis 0 (magBias (fst (calibrateMagnetometer imu0 bus_swing_one))) = 0"
    by (simp add: calibrate_magBias [OF k] set_examined_two_phase bus_swing_one_def
        overflow_xyz_bytes axis_count_examples signed_divide_int_def v)
  moreover have "spec_hard_iron 0 imu0 bus_swing_one = 1"
    by (simp add: spec_hard_iron_def spec_midpoint_def set_observed_two_phase
        bus_swing_one_def overflow_xyz_bytes axis_count_examples v)
  moreover have "axis 0 (magBias (fst (calibrateMagnetometer imu0 bus_all_least))) = - 65534"
    by (simp add: calibrate_magBias [OF k] set_examined_two_phase bus_all_least_def
        overflow_xyz_bytes axis_count_examples signed_divide_int_def v)
  moreover have "spec_hard_iron 0 imu0 bus_all_least = - 65536"
    by (simp add: spec_hard_iron_def spec_midpoint_def set_observed_two_phase
        bus_all_least_def overflow_xyz_bytes axis_count_examples v)
  ultimately show ?thesis
    by blast
qed

subsection \<open>The bus during the self test\<close>

lemma regs_after_append: "regs_after (xs @ ys) rf = regs_after ys (regs_after xs rf)"
proof (induction xs arbitrary: rf)
  case Nil
  show ?case by simp
next
  case (Cons op xs)
  then show ?case by (cases op) (simp_all add: fun_upd_def)
qed

lemma readMPURegisters_eq:
  "readMPURegisters r count b =
     (map (rx b (reads b)) [0..<count],
      b\<lparr>reads := Suc (reads b), trace := trace b @ [ReadMPU r count]\<rparr>)"
  by (simp add: readMPURegisters_def answer_def emit_def)

lemma readMPURegister_eq:
  "readMPURegister r b =
     (rx b (reads b) 0, b\<lparr>reads := Suc (reads b), trace := trace b @ [ReadMPU r 1]\<rparr>)"
  by (simp add: readMPURegister_def readMPURegisters_eq)

lemma writeMPURegister_eq:
  "writeMPURegister r v b = b\<lparr>trace := trace b @ [WriteMPU r v]\<rparr>"
  by (simp add: writeMPURegister_def emit_def)

lemma delay_eq: "delay ms b = b\<lparr>trace := trace b @ [Delay ms]\<rparr>"
  by (simp add: delay_def emit_def)

lemma avg_loop_bus:
  "snd (avg_loop k acc b) =
     b\<lparr>reads := reads b + 2 * k, trace := trace b @ concat (replicate k burst)\<rparr>"
proof (induction k arbitrary: acc b)
  case 0
  show ?case by simp
next
  case (Suc k)
  show ?case
    by (simp add: split_beta Let_def readMPURegisters_eq Suc.IH burst_def)
qed


lemma selfTest_measure_bus:
  "snd (selfTest_measure b) = b\<lparr>reads := reads b + 806, trace := trace b @ selfTest_ops\<rparr>"
  by (simp add: selfTest_measure_def split_beta Let_def writeMPURegister_eq delay_eq
      readMPURegister_eq avg_loop_bus selfTest_ops_def FS_def)

lemma selfTest_bus: "snd (selfTest b) = snd (selfTest_measure b)"
  by (simp add: selfTest_def split_beta Let_def)




subsection \<open>The measurements of the self test\<close>

lemma sample16_cong: "rx b = rx b' \<Longrightarrow> sample16 b n p = sample16 b' n p"
  by (simp add: sample16_def)

lemma sample_sum_shift:
  "(\<Sum>j<Suc k. sample16 b (n + 2 * j) p) =
     sample16 b n p + (\<Sum>j<k. sample16 b (Suc (Suc (n + 2 * j))) p)"
  "(\<Sum>j<Suc k. sample16 b (Suc (n + 2 * j)) p) =
     sample16 b (Suc n) p + (\<Sum>j<k. sample16 b (Suc (Suc (Suc (n + 2 * j)))) p)"
  by (simp_all add: sum.lessThan_Suc_shift del: sum.lessThan_Suc)

lemma avg_loop_sums:
  "fst (avg_loop k ((a0, a1, a2), (g0, g1, g2)) b) =
     ((a0 + (\<Sum>j<k. sample16 b (reads b + 2 * j) 0),
       a1 + (\<Sum>j<k. sample16 b (reads b + 2 * j) 1),
       a2 + (\<Sum>j<k. sample16 b (reads b + 2 * j) 2)),
      (g0 + (\<Sum>j<k. sample16 b (Suc (reads b) + 2 * j) 0),
       g1 + (\<Sum>j<k. sample16 b (Suc (reads b) + 2 * j) 1),
       g2 + (\<Sum>j<k. sample16 b (Suc (reads b) + 2 * j) 2)))"
proof (induction k arbitrary: a0 a1 a2 g0 g1 g2 b)
  case 0
  show ?case by simp
next
  case (Suc k)
  define b2 where
    "b2 = b\<lparr>reads := Suc (Suc (reads b)),
            trace := trace b @ [ReadMPU ACCEL_XOUT_H 6, ReadMPU GYRO_XOUT_H 6]\<rparr>"
  have s: "sample16 b2 n p = sample16 b n p" for n p
    by (rule sample16_cong) (simp add: b2_def)
  have r: "reads b2 = Suc (Suc (reads b))"
    by (simp add: b2_def)
  have step: "avg_loop (Suc k) ((a0, a1, a2), (g0, g1, g2)) b =
      avg_loop k ((a0 + sample16 b (reads b) 0, a1 + sample16 b (reads b) 1,
                   a2 + sample16 b (reads b) 2),
                  (g0 + sample16 b (Suc (reads b)) 0, g1 + sample16 b (Suc (reads b)) 1,
                   g2 + sample16 b (Suc (reads b)) 2)) b2"
    by (simp add: readMPURegisters_eq sample16_def b2_def eval_nat_numeral upt_rec [of _ "Suc _"])
  show ?case
    unfolding step Suc.IH
    by (simp add: s r sample_sum_shift add.assoc del: sum.lessThan_Suc)
qed

text \<open>
  The accumulators of an averaging loop of at most 200 passes fit the \<^verbatim>\<open>int32_t\<close> they
  are declared with, so adding on \<open>int\<close> loses nothing.
\<close>

lemma sample16_range: "- 32768 \<le> sample16 b n p \<and> sample16 b n p \<le> 32767"
proof -
  obtain w :: i16 where "sample16 b n p = sint w"
    by (simp add: sample16_def)
  then show ?thesis
    using sint_ge [of w] sint_lt [of w] by simp
qed

lemma sum_sample16_bound: "\<bar>\<Sum>j<k. sample16 b (f j) p\<bar> \<le> 32768 * int k"
proof (induction k)
  case 0
  show ?case by simp
next
  case (Suc k)
  have "\<bar>(\<Sum>j<k. sample16 b (f j) p) + sample16 b (f k) p\<bar>
          \<le> \<bar>\<Sum>j<k. sample16 b (f j) p\<bar> + \<bar>sample16 b (f k) p\<bar>"
    by (rule abs_triangle_ineq)
  moreover have "\<bar>sample16 b (f k) p\<bar> \<le> 32768"
    using sample16_range [of b "f k" p] by (simp add: abs_le_iff)
  ultimately show ?case
    using Suc.IH by simp
qed

lemma avg_loop_fits_int32:
  assumes "k \<le> 200"
    and "fst (avg_loop k ((0, 0, 0), (0, 0, 0)) b) = ((a0, a1, a2), (g0, g1, g2))"
  shows "\<forall>c \<in> {a0, a1, a2, g0, g1, g2}. - (2 ^ 31) \<le> c \<and> c < 2 ^ 31"
proof -
  have h: "\<bar>\<Sum>j<k. sample16 b (f j) p\<bar> \<le> 6553600" for f p
    using sum_sample16_bound [of b f p k] assms(1) by simp
  have r: "- (2 ^ 31) \<le> (\<Sum>j<k. sample16 b (f j) p) \<and>
           (\<Sum>j<k. sample16 b (f j) p) < 2 ^ 31" for f p
    using h [of f p] by (simp add: abs_le_iff)
  show ?thesis
    using assms(2) r [of "\<lambda>j. reads b + 2 * j"] r [of "\<lambda>j. Suc (reads b) + 2 * j"]
    unfolding avg_loop_sums by auto
qed

lemma selfTest_measure_fst:
  "fst (selfTest_measure b) =
     \<lparr>aAvg = (mean200 b (reads b) 0, mean200 b (reads b) 1, mean200 b (reads b) 2),
      gAvg = (mean200 b (reads b + 1) 0, mean200 b (reads b + 1) 1, mean200 b (reads b + 1) 2),
      aSTAvg = (mean200 b (reads b + 400) 0, mean200 b (reads b + 400) 1,
                mean200 b (reads b + 400) 2),
      gSTAvg = (mean200 b (reads b + 401) 0, mean200 b (reads b + 401) 1,
                mean200 b (reads b + 401) 2),
      selfTest_bytes = [rx b (reads b + 800) 0, rx b (reads b + 801) 0, rx b (reads b + 802) 0,
                        rx b (reads b + 803) 0, rx b (reads b + 804) 0, rx b (reads b + 805) 0]\<rparr>"
  by (simp add: selfTest_measure_def split_beta Let_def writeMPURegister_eq delay_eq
      readMPURegister_eq avg_loop_bus avg_loop_sums div200_def mean200_def sample16_def
      ac_simps)

subsection \<open>The verdict of the self test\<close>

lemma selfTest_fst: "fst (selfTest b) = check (selfTest_tolerances b)"
  by (simp add: selfTest_def selfTest_tolerances_def split_beta Let_def)

lemma check_iff: "check ts \<longleftrightarrow> (\<forall>k<length ts. ts ! k < 14)"
proof (induction ts)
  case Nil
  show ?case by simp
next
  case (Cons t ts)
  show ?case
    by (auto simp add: Cons.IH nth_Cons split: nat.splits)
qed

lemma selfTest_tolerances_eq: "selfTest_tolerances b = spec_deviations b"
  by (simp add: selfTest_tolerances_def split_beta selfTest_measure_fst tolerances_def
      factoryTrim_def tolerance_def spec_deviations_def deviation_def factoryTrim_of_eq
      datasheet_trim_def ac_simps)

lemma length_spec_deviations: "length (spec_deviations b) = 6"
  by (simp add: spec_deviations_def)

lemma mean200_zero: "mean200 (bus_of (\<lambda>n j. 0)) first p = 0"
  by (simp add: mean200_def sample16_def bus_of_def int16_of_def)

lemma spec_deviations_zero:
  "k < 6 \<Longrightarrow> spec_deviations (bus_of (\<lambda>n j. 0)) ! k = - 100"
  by (auto simp add: spec_deviations_def mean200_zero deviation_def less_Suc_eq eval_nat_numeral)

lemma mean200_excited:
  "mean200 (bus_of excited) 0 0 = 0" "mean200 (bus_of excited) 400 0 = 4096"
proof -
  have "(\<Sum>j<200. sample16 (bus_of excited) (0 + 2 * j) 0) = (\<Sum>j<(200::nat). 0)"
    by (intro sum.cong) (auto simp add: sample16_def bus_of_def excited_def int16_of_def)
  then show "mean200 (bus_of excited) 0 0 = 0"
    by (simp add: mean200_def)
  have "(\<Sum>j<200. sample16 (bus_of excited) (400 + 2 * j) 0) = (\<Sum>j<(200::nat). 4096)"
    by (intro sum.cong) (auto simp add: sample16_def bus_of_def excited_def int16_of_def)
  then show "mean200 (bus_of excited) 400 0 = 4096"
    by (simp add: mean200_def signed_divide_int_def)
qed

lemma spec_deviations_excited: "spec_deviations (bus_of excited) ! 0 \<ge> 14"
proof -
  have "spec_deviations (bus_of excited) ! 0 =
          deviation (mean200 (bus_of excited) 400 0) (mean200 (bus_of excited) 0 0)
            (datasheet_trim 0 (unat (excited 800 0)))"
    by (simp add: spec_deviations_def bus_of_def)
  also have "\<dots> = 100 * 4096 / 2620 - 100"
    by (simp add: mean200_excited deviation_def datasheet_trim_def excited_def)
  finally show ?thesis
    by simp
qed

text \<open>
  C1. The six tolerances \<^verbatim>\<open>selfTest\<close> computes are the percent deviations
  \<open>100 * (selfTestMean - normalMean) / factoryTrim - 100\<close> of the three accelerometer
  axes and then the three gyroscope axes. If one of them is 14 or more, \<^verbatim>\<open>selfTest\<close>
  returns false; if all six are below 14, it returns true. There is no lower bound: a run
  exists in which every deviation is -14 or less and the result is true.
\<close>

theorem selfTest_threshold:
  "selfTest_tolerances b = spec_deviations b \<and>
   length (spec_deviations b) = 6 \<and>
   ((\<exists>k<6. spec_deviations b ! k \<ge> 14) \<longrightarrow> fst (selfTest b) = False) \<and>
   ((\<forall>k<6. spec_deviations b ! k < 14) \<longrightarrow> fst (selfTest b) = True) \<and>
   (\<exists>b'. (\<forall>k<6. spec_deviations b' ! k \<le> - 14) \<and> fst (selfTest b') = True)"
proof -
  have v: "fst (selfTest c) \<longleftrightarrow> (\<forall>k<6. spec_deviations c ! k < 14)" for c
    by (simp add: selfTest_fst check_iff selfTest_tolerances_eq length_spec_deviations)
  have "(\<forall>k<6. spec_deviations (bus_of (\<lambda>n j. 0)) ! k \<le> - 14) \<and>
        fst (selfTest (bus_of (\<lambda>n j. 0))) = True"
    by (simp add: v spec_deviations_zero)
  then have "\<exists>b'. (\<forall>k<6. spec_deviations b' ! k \<le> - 14) \<and> fst (selfTest b') = True"
    by blast
  then show ?thesis
    using v [of b] by (auto simp add: selfTest_tolerances_eq length_spec_deviations not_less)
qed

theorem selfTest_threshold_witness:
  "fst (selfTest (bus_of excited)) = False \<and>
   fst (selfTest (bus_of (\<lambda>n j. 0))) = True \<and>
   spec_deviations (bus_of (\<lambda>n j. 0)) ! 0 = - 100"
proof -
  have a: "\<exists>k<6. spec_deviations (bus_of excited) ! k \<ge> 14"
    using spec_deviations_excited by (intro exI [of _ 0]) simp
  have b: "\<forall>k<6. spec_deviations (bus_of (\<lambda>n j. 0)) ! k < 14"
    by (simp add: spec_deviations_zero)
  show ?thesis
    using selfTest_threshold [of "bus_of excited"] selfTest_threshold [of "bus_of (\<lambda>n j. 0)"]
          a b spec_deviations_zero [of 0]
    by simp
qed

subsection \<open>runTests\<close>

lemma getId_eq:
  "getId b = (rx b (reads b) 0,
              b\<lparr>reads := Suc (reads b), trace := trace b @ [ReadMPU WHO_AM_I 1]\<rparr>)"
  by (simp add: getId_def readMPURegister_eq)

lemma reset_eq: "reset I2C_MST_EN this b = b\<lparr>trace := trace b @ reset_ops I2C_MST_EN this\<rparr>"
  by (simp add: reset_def reset_ops_def Let_def writeMPURegister_eq delay_eq)

lemma getAK8963CID_eq:
  "getAK8963CID b =
     (rx b (reads b) 0,
      b\<lparr>reads := Suc (reads b), trace := trace b @ [ReadAK AK8963_WHO_AM_I 1]\<rparr>)"
  by (simp add: getAK8963CID_def readAK8963Register_def readAK8963Registers_def answer_def
      emit_def)

lemma initMPU6500_reads:
  "rx (initMPU6500 m a g d p b) = rx b" "reads (initMPU6500 m a g d p b) = reads b + 3"
  by (cases p; simp add: initMPU6500_def split_beta Let_def writeMPURegister_eq delay_eq
      readMPURegister_eq)+

lemma runTests_unfold:
  "runTests m cal this b =
     (if rx b (reads b) 0 \<noteq> 0x71 then (ERROR_IMU_ID, this, snd (getId b))
      else if \<not> fst (selfTest (at_selfTest m this b))
        then (ERROR_SELFTEST, this, after_selfTest m this b)
      else if rx (at_mag_check m cal this b) (reads (at_mag_check m cal this b)) 0 \<noteq> 0x48
        then (ERROR_MAG_ID, this, snd (getAK8963CID (at_mag_check m cal this b)))
      else (ERROR_NONE,
            initAK8963 (mScale this) (mMode this) this
              (snd (getAK8963CID (at_mag_check m cal this b)))))"
  by (simp add: runTests_def at_selfTest_def after_selfTest_def at_mag_check_def split_beta
      Let_def getId_eq getAK8963CID_eq)

lemma after_selfTest_trace:
  "trace (after_selfTest m this b) =
     trace b @ [ReadMPU WHO_AM_I 1] @ reset_ops m this @ selfTest_ops"
  by (simp add: after_selfTest_def at_selfTest_def selfTest_bus selfTest_measure_bus reset_eq
      getId_eq)

text \<open>
  C4. \<^verbatim>\<open>runTests\<close> returns \<^verbatim>\<open>ERROR_IMU_ID\<close> exactly when the answer to its first read,
  the identity register, is not \<open>0x71\<close>; otherwise \<^verbatim>\<open>ERROR_SELFTEST\<close> exactly when the
  self test, run after the reset, fails; otherwise \<^verbatim>\<open>ERROR_MAG_ID\<close> exactly when the
  identity read from the magnetometer after calibration and initialisation is not
  \<open>0x48\<close>; otherwise \<^verbatim>\<open>ERROR_NONE\<close>. On each error it returns at once, with the object
  unchanged: the identity is read once, the self test is run once, and the identity of the
  magnetometer is read once, and nothing follows the failing check.
\<close>

theorem runTests_errors:
  "(fst (runTests m cal this b) = ERROR_IMU_ID \<longleftrightarrow> rx b (reads b) 0 \<noteq> 0x71) \<and>
   (fst (runTests m cal this b) = ERROR_SELFTEST \<longleftrightarrow>
      rx b (reads b) 0 = 0x71 \<and> \<not> fst (selfTest (at_selfTest m this b))) \<and>
   (fst (runTests m cal this b) = ERROR_MAG_ID \<longleftrightarrow>
      rx b (reads b) 0 = 0x71 \<and> fst (selfTest (at_selfTest m this b)) \<and>
      rx (at_mag_check m cal this b) (reads (at_mag_check m cal this b)) 0 \<noteq> 0x48) \<and>
   (fst (runTests m cal this b) = ERROR_NONE \<longleftrightarrow>
      rx b (reads b) 0 = 0x71 \<and> fst (selfTest (at_selfTest m this b)) \<and>
      rx (at_mag_check m cal this b) (reads (at_mag_check m cal this b)) 0 = 0x48) \<and>
   (fst (runTests m cal this b) = ERROR_IMU_ID \<longrightarrow>
      fst (snd (runTests m cal this b)) = this \<and>
      trace (snd (snd (runTests m cal this b))) = trace b @ [ReadMPU WHO_AM_I 1]) \<and>
   (fst (runTests m cal this b) = ERROR_SELFTEST \<longrightarrow>
      fst (snd (runTests m cal this b)) = this \<and>
      trace (snd (snd (runTests m cal this b))) =
        trace b @ [ReadMPU WHO_AM_I 1] @ reset_ops m this @ selfTest_ops) \<and>
   (fst (runTests m cal this b) = ERROR_MAG_ID \<longrightarrow>
      fst (snd (runTests m cal this b)) = this \<and>
      trace (snd (snd (runTests m cal this b))) =
        trace (at_mag_check m cal this b) @ [ReadAK AK8963_WHO_AM_I 1])"
  by (simp add: runTests_unfold after_selfTest_trace getId_eq getAK8963CID_eq split_beta)

text \<open>
  C10. When the first read does not return \<open>0x71\<close>, \<^verbatim>\<open>runTests\<close> returns
  \<^verbatim>\<open>ERROR_IMU_ID\<close> having done nothing on the bus but that read: no register of the MPU
  or of the magnetometer is written, the object is unchanged, and the register file of the
  device is what it was.
\<close>

theorem runTests_wrong_id_writes_nothing:
  "rx b (reads b) 0 \<noteq> 0x71 \<Longrightarrow>
     runTests m cal this b =
       (ERROR_IMU_ID, this,
        b\<lparr>reads := Suc (reads b), trace := trace b @ [ReadMPU WHO_AM_I 1]\<rparr>) \<and>
     (\<forall>op \<in> set (drop (length (trace b)) (trace (snd (snd (runTests m cal this b))))).
        \<not> is_write op) \<and>
     regs_after (trace (snd (snd (runTests m cal this b)))) rf = regs_after (trace b) rf"
  by (simp add: runTests_unfold getId_eq regs_after_append)


theorem runTests_wrong_id_writes_nothing_witness:
  "runTests 0x20 (\<lambda>b. b) imu0 (bus_of (\<lambda>n j. 0x70)) =
     (ERROR_IMU_ID, imu0, \<lparr>rx = (\<lambda>n j. 0x70), reads = 1, trace = [ReadMPU WHO_AM_I 1]\<rparr>)"
proof -
  have "rx (bus_of (\<lambda>n j. 0x70)) (reads (bus_of (\<lambda>n j. 0x70))) 0 \<noteq> (0x71 :: u8)"
    by (simp add: bus_of_def)
  from runTests_wrong_id_writes_nothing [OF this, of "0x20" "\<lambda>b. b" imu0]
  show ?thesis
    by (simp add: bus_of_def)
qed

lemma at_selfTest_io:
  "rx (at_selfTest m this b) = rx b" "reads (at_selfTest m this b) = Suc (reads b)"
  by (simp_all add: at_selfTest_def reset_eq getId_eq)

lemma after_selfTest_io:
  "rx (after_selfTest m this b) = rx b" "reads (after_selfTest m this b) = reads b + 807"
  by (simp_all add: after_selfTest_def selfTest_bus selfTest_measure_bus at_selfTest_io)

lemma at_mag_check_io:
  "rx (at_mag_check m (\<lambda>b. b) this b) = rx b"
  "reads (at_mag_check m (\<lambda>b. b) this b) = reads b + 810"
  by (simp_all add: at_mag_check_def initMPU6500_reads after_selfTest_io)

lemma selfTest_verdict: "fst (selfTest b) \<longleftrightarrow> (\<forall>k<6. spec_deviations b ! k < 14)"
  by (simp add: selfTest_fst check_iff selfTest_tolerances_eq length_spec_deviations)

lemma spec_deviations_cong:
  assumes h: "\<forall>n<806. rx b (reads b + n) = rx b' (reads b' + n)"
  shows "spec_deviations b = spec_deviations b'"
proof -
  have s: "sample16 b (reads b + n) p = sample16 b' (reads b' + n) p" if "n < 806" for n p
    using h that by (simp add: sample16_def)
  have m: "mean200 b (reads b + off) p = mean200 b' (reads b' + off) p" if "off \<le> 401" for off p
  proof -
    have "(\<Sum>j<200. sample16 b (reads b + off + 2 * j) p) =
          (\<Sum>j<200. sample16 b' (reads b' + off + 2 * j) p)"
    proof (rule sum.cong)
      fix j :: nat
      assume "j \<in> {..<200}"
      then have "off + 2 * j < 806"
        using that by simp
      from s [OF this, of p]
      show "sample16 b (reads b + off + 2 * j) p = sample16 b' (reads b' + off + 2 * j) p"
        by (simp add: add.assoc)
    qed (rule refl)
    then show ?thesis
      by (simp add: mean200_def)
  qed
  have t: "rx b (reads b + n) = rx b' (reads b' + n)" if "n < 806" for n
    using h that by simp
  show ?thesis
    using m [of 0] m [of 1] m [of 400] m [of 401]
          t [of 800] t [of 801] t [of 802] t [of 803] t [of 804] t [of 805]
    by (simp add: spec_deviations_def add.assoc)
qed

lemma selfTest_cong:
  "\<forall>n<806. rx b (reads b + n) = rx b' (reads b' + n) \<Longrightarrow>
   fst (selfTest b) = fst (selfTest b')"
  unfolding selfTest_verdict by (drule spec_deviations_cong) simp

lemma selfTest_zero_passes: "fst (selfTest (bus_of (\<lambda>n j. 0)))"
  by (simp add: selfTest_verdict spec_deviations_zero)

lemma selfTest_excited_fails: "\<not> fst (selfTest (bus_of excited))"
  unfolding selfTest_verdict using spec_deviations_excited
  by (auto simp add: not_less intro!: exI [of _ 0])

theorem runTests_errors_witness:
  "fst (runTests 0x20 (\<lambda>b. b) imu0 (bus_of (\<lambda>n j. 0x70))) = ERROR_IMU_ID \<and>
   fst (runTests 0x20 (\<lambda>b. b) imu0
          (bus_of (\<lambda>n j. if n = 0 then 0x71 else excited (n - 1) j))) = ERROR_SELFTEST \<and>
   fst (runTests 0x20 (\<lambda>b. b) imu0 (bus_of (\<lambda>n j. if n = 0 then 0x71 else 0)))
     = ERROR_MAG_ID \<and>
   fst (runTests 0x20 (\<lambda>b. b) imu0
          (bus_of (\<lambda>n j. if n = 0 then 0x71 else if n = 810 then 0x48 else 0)))
     = ERROR_NONE"
proof -
  have a: "\<not> fst (selfTest (at_selfTest 0x20 imu0
              (bus_of (\<lambda>n j. if n = 0 then 0x71 else excited (n - 1) j))))"
  proof -
    have "fst (selfTest (at_selfTest 0x20 imu0
              (bus_of (\<lambda>n j. if n = 0 then 0x71 else excited (n - 1) j)))) =
          fst (selfTest (bus_of excited))"
      by (rule selfTest_cong) (simp add: at_selfTest_io bus_of_def)
    then show ?thesis
      using selfTest_excited_fails by simp
  qed
  have b: "fst (selfTest (at_selfTest 0x20 imu0 (bus_of (\<lambda>n j. if n = 0 then 0x71 else 0))))"
  proof -
    have "fst (selfTest (at_selfTest 0x20 imu0 (bus_of (\<lambda>n j. if n = 0 then 0x71 else 0)))) =
          fst (selfTest (bus_of (\<lambda>n j. 0)))"
      by (rule selfTest_cong) (simp add: at_selfTest_io bus_of_def)
    then show ?thesis
      using selfTest_zero_passes by simp
  qed
  have c: "fst (selfTest (at_selfTest 0x20 imu0
              (bus_of (\<lambda>n j. if n = 0 then 0x71 else if n = 810 then 0x48 else 0))))"
  proof -
    have "fst (selfTest (at_selfTest 0x20 imu0
              (bus_of (\<lambda>n j. if n = 0 then 0x71 else if n = 810 then 0x48 else 0)))) =
          fst (selfTest (bus_of (\<lambda>n j. 0)))"
      by (rule selfTest_cong) (simp add: at_selfTest_io bus_of_def)
    then show ?thesis
      using selfTest_zero_passes by simp
  qed
  show ?thesis
    using runTests_errors [of "0x20" "\<lambda>b. b" imu0 "bus_of (\<lambda>n j. 0x70)"]
          runTests_errors [of "0x20" "\<lambda>b. b" imu0
            "bus_of (\<lambda>n j. if n = 0 then 0x71 else excited (n - 1) j)"]
          runTests_errors [of "0x20" "\<lambda>b. b" imu0 "bus_of (\<lambda>n j. if n = 0 then 0x71 else 0)"]
          runTests_errors [of "0x20" "\<lambda>b. b" imu0
            "bus_of (\<lambda>n j. if n = 0 then 0x71 else if n = 810 then 0x48 else 0)"]
          a b c
    by (simp add: at_mag_check_io bus_of_def)
qed

end
